theory Spec2Isabelle
  imports Main
begin

section \<open>Host values\<close>

text \<open>
  The script runs in a browser page. Slide numbers are integer-valued JavaScript Numbers;
  they are modelled as \<open>int\<close> (no rounding above \<open>2^53\<close>), and \<open>NaN\<close> as \<open>None\<close>.
  Strings are \<open>string\<close>; every string the script builds itself is ASCII.

  The only exception the script can meet is the \<open>TypeError\<close> of reading a property of
  \<open>undefined\<close> (an array read out of range followed by \<open>.classList\<close>). A method that can
  throw returns \<open>Inl (TypeError, s)\<close> with the state \<open>s\<close> reached when the exception leaves it:
  the page lives on after an uncaught exception in an event handler.
\<close>

datatype error = TypeError

type_synonym 'a result = "(error \<times> 'a) + 'a"

definition state_of :: "'a result \<Rightarrow> 'a" where
  "state_of r = (case r of Inl (e, s) \<Rightarrow> s | Inr s \<Rightarrow> s)"

definition threw :: "'a result \<Rightarrow> bool" where
  "threw r = (case r of Inl x \<Rightarrow> True | Inr s \<Rightarrow> False)"

subsection \<open>\<open>String(n)\<close> and \<open>padStart\<close>\<close>

definition digit :: "nat \<Rightarrow> char" where
  "digit d = ''0123456789'' ! d"

fun digits :: "nat \<Rightarrow> string" where
  "digits n = (if n < 10 then [digit n] else digits (n div 10) @ [digit (n mod 10)])"

declare digits.simps [simp del]

text \<open>\<open>String(n)\<close> for an integer \<open>n\<close>: decimal digits, with a minus sign when negative.\<close>

definition String :: "int \<Rightarrow> string" where
  "String n = (if n < 0 then CHR ''-'' # digits (nat (- n)) else digits (nat n))"

text \<open>
  \<open>s.padStart(n, pad)\<close>: \<open>s\<close> itself when it already has \<open>n\<close> characters or \<open>pad\<close> is empty,
  otherwise \<open>pad\<close> repeated and cut to the missing length, then \<open>s\<close>.
\<close>

definition padStart :: "nat \<Rightarrow> string \<Rightarrow> string \<Rightarrow> string" where
  "padStart n pad s =
     (if n \<le> length s \<or> pad = [] then s
      else take (n - length s) (concat (replicate (n - length s) pad)) @ s)"

text \<open>\<open>x || 1\<close> on a Number: \<open>NaN\<close> and \<open>0\<close> are falsy.\<close>

definition or_one :: "int option \<Rightarrow> int" where
  "or_one x = (case x of None \<Rightarrow> 1 | Some n \<Rightarrow> if n = 0 then 1 else n)"

text \<open>Truthiness of \<open>dataset.key\<close>: the attribute is present and not the empty string.\<close>

definition truthy :: "string option \<Rightarrow> string option" where
  "truthy a = (case a of None \<Rightarrow> None | Some u \<Rightarrow> if u = [] then None else Some u)"

section \<open>SlidePresenter\<close>

text \<open>
  \<open>dataset\<close> of the \<open>.slide-container\<close> element: the four \<open>data-*\<close> attributes the script
  reads, each absent (\<open>None\<close>) or a string.
\<close>

record dataset =
  data_totalSlides :: "string option"
  data_currentSlide :: "string option"
  nextSlide :: "string option"
  prevSlide :: "string option"

text \<open>
  The presenter object together with the parts of \<open>document\<close> and \<open>window\<close> it reads and
  writes. \<open>fragments\<close> holds, for each \<open>.fragment\<close> element in document order, whether its
  class list contains \<open>visible\<close>; \<open>container\<close> is \<open>document.querySelector('.slide-container')\<close>;
  \<open>slideNumber\<close> is the text of \<open>#slide-number\<close> (\<open>None\<close> when the element is absent);
  \<open>location\<close> lists the values assigned to \<open>window.location.href\<close>, oldest first (the
  page that the browser then loads starts from its own construction);
  \<open>fullscreen\<close> is \<open>document.fullscreenElement\<close> being set, the browser granting every
  request to enter or leave fullscreen.
\<close>

record presenter =
  currentFragmentIndex :: int
  fragments :: "bool list"
  totalSlides :: int
  currentSlide :: int
  container :: "dataset option"
  slideNumber :: "string option"
  location :: "string list"
  fullscreen :: bool

definition navigate :: "string \<Rightarrow> 'a presenter_scheme \<Rightarrow> 'a presenter_scheme" where
  "navigate url s = s\<lparr>location := location s @ [url]\<rparr>"

definition slide_file :: "int \<Rightarrow> string" where
  "slide_file n = ''slide-'' @ padStart 2 ''0'' (String n) @ ''.html''"

definition goToSlide :: "int \<Rightarrow> 'a presenter_scheme \<Rightarrow> 'a presenter_scheme" where
  "goToSlide slideNum s =
     (if slideNum \<ge> 1 \<and> slideNum \<le> totalSlides s then navigate (slide_file slideNum) s else s)"

definition goToIndex :: "'a presenter_scheme \<Rightarrow> 'a presenter_scheme" where
  "goToIndex s = navigate ''index.html'' s"

definition updateNav :: "'a presenter_scheme \<Rightarrow> 'a presenter_scheme" where
  "updateNav s =
     (case slideNumber s of
        None \<Rightarrow> s
      | Some old \<Rightarrow> s\<lparr>slideNumber := Some (String (currentSlide s) @ '' / '' @ String (totalSlides s))\<rparr>)"

definition toggleFullscreen :: "'a presenter_scheme \<Rightarrow> 'a presenter_scheme" where
  "toggleFullscreen s = (if \<not> fullscreen s then s\<lparr>fullscreen := True\<rparr> else s\<lparr>fullscreen := False\<rparr>)"

text \<open>
  \<open>fs[i].classList.add('visible')\<close> and \<open>fs[i].classList.remove('visible')\<close>: \<open>None\<close> when
  \<open>fs[i]\<close> is \<open>undefined\<close>.
\<close>

definition set_visible :: "bool \<Rightarrow> int \<Rightarrow> bool list \<Rightarrow> bool list option" where
  "set_visible v i fs = (if 0 \<le> i \<and> i < int (length fs) then Some (fs[nat i := v]) else None)"

text \<open>\<open>container && container.dataset.nextSlide\<close> (or \<open>prevSlide\<close>): the custom target, if any.\<close>

definition custom :: "(dataset \<Rightarrow> string option) \<Rightarrow> 'a presenter_scheme \<Rightarrow> string option" where
  "custom attr s = (case container s of None \<Rightarrow> None | Some c \<Rightarrow> truthy (attr c))"

definition "next" :: "'a presenter_scheme \<Rightarrow> 'a presenter_scheme result" where
  "next s =
     (if currentFragmentIndex s < int (length (fragments s)) - 1 then
        (let s1 = s\<lparr>currentFragmentIndex := currentFragmentIndex s + 1\<rparr> in
         case set_visible True (currentFragmentIndex s1) (fragments s1) of
           None \<Rightarrow> Inl (TypeError, s1)
         | Some fs \<Rightarrow> Inr (updateNav (s1\<lparr>fragments := fs\<rparr>)))
      else
        (case custom nextSlide s of
           Some url \<Rightarrow> Inr (navigate url s)
         | None \<Rightarrow>
             Inr (updateNav (if currentSlide s < totalSlides s
                             then goToSlide (currentSlide s + 1) s else s))))"

definition prev :: "'a presenter_scheme \<Rightarrow> 'a presenter_scheme result" where
  "prev s =
     (if currentFragmentIndex s \<ge> 0 then
        (case set_visible False (currentFragmentIndex s) (fragments s) of
           None \<Rightarrow> Inl (TypeError, s)
         | Some fs \<Rightarrow>
             Inr (updateNav (s\<lparr>fragments := fs,
                                currentFragmentIndex := currentFragmentIndex s - 1\<rparr>)))
      else
        (case custom prevSlide s of
           Some url \<Rightarrow> Inr (navigate url s)
         | None \<Rightarrow>
             Inr (updateNav (if currentSlide s > 1
                             then goToSlide (currentSlide s - 1) s else s))))"

subsection \<open>Construction\<close>

text \<open>
  What the constructor finds in the page: the \<open>.fragment\<close> elements (their \<open>visible\<close>
  flags, in document order), the slide container and the text of \<open>#slide-number\<close>.
\<close>

record page =
  page_fragments :: "bool list"
  page_container :: "dataset option"
  page_slideNumber :: "string option"

text \<open>
  \<open>init\<close> up to \<open>updateNav\<close>. The host function \<open>parseInt\<close> is a parameter: it maps the
  attribute (\<open>None\<close> is \<open>undefined\<close>) to a Number, \<open>None\<close> being \<open>NaN\<close>. The listeners that
  \<open>init\<close> registers are the functions \<open>handleKeydown\<close> and \<open>slideClick\<close> below; the class
  \<open>slide-enter\<close> it adds to the slide is styling only.
\<close>

definition init :: "(string option \<Rightarrow> int option) \<Rightarrow> page \<Rightarrow> 'a presenter_scheme \<Rightarrow> 'a presenter_scheme" where
  "init parseInt p s =
     (let s1 = s\<lparr>fragments := page_fragments p\<rparr>;
          s2 = (case container s1 of
                  None \<Rightarrow> s1
                | Some c \<Rightarrow> s1\<lparr>totalSlides := or_one (parseInt (data_totalSlides c)),
                               currentSlide := or_one (parseInt (data_currentSlide c))\<rparr>)
      in updateNav s2)"

definition SlidePresenter :: "(string option \<Rightarrow> int option) \<Rightarrow> page \<Rightarrow> presenter" where
  "SlidePresenter parseInt p =
     init parseInt p
       \<lparr>currentFragmentIndex = - 1, fragments = [], totalSlides = 0, currentSlide = 1,
        container = page_container p, slideNumber = page_slideNumber p,
        location = [], fullscreen = False\<rparr>"

subsection \<open>\<open>parseInt\<close> on ASCII strings\<close>

text \<open>
  The host's \<open>parseInt(x)\<close> with no radix, for ASCII input and with exact integers: leading
  white space is dropped, then an optional sign, then \<open>0x\<close> or \<open>0X\<close> selects radix 16, and
  the longest prefix of digits is the value; no digit gives \<open>NaN\<close>.
\<close>

definition is_space :: "char \<Rightarrow> bool" where
  "is_space c = (of_char c \<in> {9, 10, 11, 12, 13, 32 :: nat})"

definition digit_value :: "nat \<Rightarrow> char \<Rightarrow> nat option" where
  "digit_value R c =
     (let k = of_char c :: nat;
          v = (if 48 \<le> k \<and> k \<le> 57 then k - 48
               else if 97 \<le> k \<and> k \<le> 122 then k - 87
               else if 65 \<le> k \<and> k \<le> 90 then k - 55
               else R)
      in if v < R then Some v else None)"

fun digit_prefix :: "nat \<Rightarrow> string \<Rightarrow> nat list" where
  "digit_prefix R [] = []"
| "digit_prefix R (c # cs) =
     (case digit_value R c of None \<Rightarrow> [] | Some v \<Rightarrow> v # digit_prefix R cs)"

definition parseInt_ascii :: "string option \<Rightarrow> int option" where
  "parseInt_ascii x =
     (let s = dropWhile is_space (case x of None \<Rightarrow> ''undefined'' | Some a \<Rightarrow> a);
          neg = (take 1 s = ''-'');
          s1 = (if take 1 s = ''+'' \<or> take 1 s = ''-'' then drop 1 s else s);
          hex = (take 2 s1 = ''0x'' \<or> take 2 s1 = ''0X'');
          R = (if hex then 16 else 10);
          z = digit_prefix R (if hex then drop 2 s1 else s1)
      in if z = [] then None
         else Some ((if neg then - 1 else 1) * int (foldl (\<lambda>a v. a * R + v) 0 z)))"

section \<open>Events\<close>

text \<open>
  An event carries three flags, set by \<open>preventDefault\<close>, \<open>stopPropagation\<close> and
  \<open>stopImmediatePropagation\<close>. A listener maps the state and the flags to new ones; the
  host reports an exception that leaves a listener and goes on (\<open>hosted\<close>).
  \<open>run_listeners\<close> runs the listeners of one node and phase in registration order, until
  one stops immediate propagation; \<open>propagate\<close> visits the nodes of the path in order, until
  a listener has stopped the propagation.
\<close>

record flags =
  defaultPrevented :: bool
  propagationStopped :: bool
  immediateStopped :: bool

definition fresh :: flags where
  "fresh = \<lparr>defaultPrevented = False, propagationStopped = False, immediateStopped = False\<rparr>"

definition preventDefault :: "flags \<Rightarrow> flags" where
  "preventDefault e = e\<lparr>defaultPrevented := True\<rparr>"

definition stopPropagation :: "flags \<Rightarrow> flags" where
  "stopPropagation e = e\<lparr>propagationStopped := True\<rparr>"

definition stopImmediatePropagation :: "flags \<Rightarrow> flags" where
  "stopImmediatePropagation e = e\<lparr>propagationStopped := True, immediateStopped := True\<rparr>"

definition hosted :: "('w \<Rightarrow> flags \<Rightarrow> 'w result \<times> flags) \<Rightarrow> 'w \<Rightarrow> flags \<Rightarrow> 'w \<times> flags" where
  "hosted l w e = (case l w e of (r, e') \<Rightarrow> (state_of r, e'))"

fun run_listeners :: "('w \<Rightarrow> flags \<Rightarrow> 'w \<times> flags) list \<Rightarrow> 'w \<Rightarrow> flags \<Rightarrow> 'w \<times> flags" where
  "run_listeners [] w e = (w, e)"
| "run_listeners (l # ls) w e =
     (if immediateStopped e then (w, e)
      else case l w e of (w', e') \<Rightarrow> run_listeners ls w' e')"

fun propagate :: "('w \<Rightarrow> flags \<Rightarrow> 'w \<times> flags) list list \<Rightarrow> 'w \<Rightarrow> flags \<Rightarrow> 'w \<times> flags" where
  "propagate [] w e = (w, e)"
| "propagate (ls # rest) w e =
     (if propagationStopped e then (w, e)
      else case run_listeners ls w e of (w', e') \<Rightarrow> propagate rest w' e')"

text \<open>
  A click is given by its propagation path, target first. Of each element the listeners
  read the tag name and whether it matches \<open>.home-btn\<close>; \<open>listeners\<close> are the click listeners
  this script has attached to the element, in registration order.
\<close>

record 'l node =
  tagName :: string
  home_btn :: bool
  listeners :: "'l list"

text \<open>
  The first test of the slide's click listener: the target is a link or a button, or has
  an ancestor (or is itself) matching \<open>a\<close>, \<open>button\<close> or \<open>.home-btn\<close>. A type selector matches
  the upper-case tag name of an HTML element and the lower-case one of any other element.
\<close>

definition on_link_or_button :: "'l node list \<Rightarrow> bool" where
  "on_link_or_button path =
     (case path of
        [] \<Rightarrow> False
      | t # ancestors \<Rightarrow>
          tagName t = ''A'' \<or> tagName t = ''BUTTON'' \<or>
          (\<exists>n \<in> set path. tagName n = ''A'' \<or> tagName n = ''a'') \<or>
          (\<exists>n \<in> set path. tagName n = ''BUTTON'' \<or> tagName n = ''button'') \<or>
          (\<exists>n \<in> set path. home_btn n))"

text \<open>
  \<open>handleKeydown\<close> and the slide's click listener as they are in \<open>assets/slides.js\<close> and in
  the file with the presenter alone: no test of any dialog.
\<close>

definition handleKeydown :: "string \<Rightarrow> 'a presenter_scheme \<Rightarrow> flags \<Rightarrow> 'a presenter_scheme result \<times> flags" where
  "handleKeydown key s e =
     (if key = ''ArrowRight'' \<or> key = '' '' \<or> key = ''Enter'' then (next s, preventDefault e)
      else if key = ''ArrowLeft'' \<or> key = ''Backspace'' then (prev s, preventDefault e)
      else if key = ''Home'' then (Inr (goToSlide 1 s), preventDefault e)
      else if key = ''End'' then (Inr (goToSlide (totalSlides s) s), preventDefault e)
      else if key = ''Escape'' then (Inr (goToIndex s), preventDefault e)
      else if key = ''f'' then (Inr (toggleFullscreen s), preventDefault e)
      else (Inr s, e))"

definition slideClick :: "'l node list \<Rightarrow> 'a presenter_scheme \<Rightarrow> 'a presenter_scheme result" where
  "slideClick path s = (if on_link_or_button path then Inr s else next s)"

section \<open>InfoDialogManager (\<open>did-slides-2\<close>)\<close>

text \<open>
  \<open>window.MathJax\<close>: undefined, an object without \<open>typesetPromise\<close> (the configuration
  object before the engine has loaded), or the engine.
\<close>

datatype mathjax = NoMathJax | MathJaxConfig | MathJaxEngine

datatype settlement = Fulfilled | Rejected

text \<open>An element found by \<open>getElementById\<close>: its \<open>data-title\<close> and its \<open>innerHTML\<close>.\<close>

record dialog_source =
  data_title :: "string option"
  innerHTML :: string

text \<open>An \<open>.info-btn\<close>: its \<open>data-dialog\<close> and its text.\<close>

record info_btn =
  data_dialog :: "string option"
  textContent :: string

text \<open>
  The page of \<open>did-slides-2\<close>: the presenter, the manager's overlay (\<open>overlay_open\<close> is the
  class \<open>open\<close>, \<open>dialog_title\<close> and \<open>dialog_body\<close> the contents of its two slots),
  \<open>infoDialogs_set\<close> for \<open>window.infoDialogs\<close> being assigned, the elements that have an id,
  \<open>window.MathJax\<close>, and the bodies handed to \<open>typesetPromise\<close> whose promise is pending.
\<close>

record unified = presenter +
  overlay_open :: bool
  dialog_title :: string
  dialog_body :: string
  infoDialogs_set :: bool
  elements :: "string \<Rightarrow> dialog_source option"
  mathJax :: mathjax
  typesetting :: "string list"

definition isOpen :: "unified \<Rightarrow> bool" where
  "isOpen w = overlay_open w"

definition close :: "unified \<Rightarrow> unified" where
  "close w = w\<lparr>overlay_open := False\<rparr>"

definition "open" :: "string \<Rightarrow> string \<Rightarrow> unified \<Rightarrow> unified result" where
  "open title bodyHtml w =
     (let w1 = w\<lparr>dialog_title := title\<rparr>;
          w2 = w1\<lparr>dialog_body := bodyHtml\<rparr>;
          w3 = w2\<lparr>overlay_open := True\<rparr>
      in case mathJax w3 of
           NoMathJax \<Rightarrow> Inr w3
         | MathJaxConfig \<Rightarrow> Inl (TypeError, w3)
         | MathJaxEngine \<Rightarrow> Inr (w3\<lparr>typesetting := typesetting w3 @ [bodyHtml]\<rparr>))"

text \<open>
  The oldest pending promise settles. A rejection runs the handler given to \<open>catch\<close>,
  \<open>() => {}\<close>; a fulfilment runs nothing of this script.
\<close>

definition on_rejected :: "unified \<Rightarrow> unified" where
  "on_rejected w = w"

definition typeset_settled :: "settlement \<Rightarrow> unified \<Rightarrow> unified" where
  "typeset_settled r w =
     (case typesetting w of
        [] \<Rightarrow> w
      | b # bs \<Rightarrow> (case r of Fulfilled \<Rightarrow> w\<lparr>typesetting := bs\<rparr>
                           | Rejected \<Rightarrow> on_rejected (w\<lparr>typesetting := bs\<rparr>)))"

text \<open>
  \<open>document.getElementById(x)\<close>: \<open>undefined\<close> is looked up as the string \<open>undefined\<close>, and
  the empty string finds nothing.
\<close>

definition getElementById :: "(string \<Rightarrow> 'e option) \<Rightarrow> string option \<Rightarrow> 'e option" where
  "getElementById els x =
     (let k = (case x of None \<Rightarrow> ''undefined'' | Some a \<Rightarrow> a)
      in if k = [] then None else els k)"

text \<open>\<open>window.infoDialogs && window.infoDialogs.isOpen()\<close>\<close>

definition dialog_open :: "unified \<Rightarrow> bool" where
  "dialog_open w = (infoDialogs_set w \<and> isOpen w)"

definition handleKeydown_2 :: "string \<Rightarrow> unified \<Rightarrow> flags \<Rightarrow> unified result \<times> flags" where
  "handleKeydown_2 key w e = (if dialog_open w then (Inr w, e) else handleKeydown key w e)"

definition slideClick_2 :: "'l node list \<Rightarrow> unified \<Rightarrow> unified result" where
  "slideClick_2 path w =
     (if on_link_or_button path then Inr w
      else if dialog_open w then Inr w
      else next w)"

definition escape_keydown :: "string \<Rightarrow> unified \<Rightarrow> flags \<Rightarrow> unified \<times> flags" where
  "escape_keydown key w e =
     (if key = ''Escape'' \<and> overlay_open w
      then (close w, stopPropagation (preventDefault e))
      else (w, e))"

definition infoBtnClick :: "info_btn \<Rightarrow> unified \<Rightarrow> unified result" where
  "infoBtnClick btn w =
     (case getElementById (elements w) (data_dialog btn) of
        None \<Rightarrow> Inr w
      | Some target \<Rightarrow>
          open (case truthy (data_title target) of Some t \<Rightarrow> t | None \<Rightarrow> textContent btn)
               (innerHTML target) w)"

text \<open>
  The click listeners of \<open>did-slides-2\<close>: the slide's, the overlay's, the close button's
  and that of each \<open>.info-btn\<close>. \<open>at_target\<close> says that the element the listener is attached
  to is the target of the event (\<open>e.target === this.overlay\<close> for the overlay's listener).
\<close>

datatype click_listener = SlideClick | OverlayClick | CloseBtnClick | InfoBtnClick info_btn

definition click_listener_2 ::
  "click_listener node list \<Rightarrow> bool \<Rightarrow> click_listener \<Rightarrow> unified \<Rightarrow> flags \<Rightarrow> unified \<times> flags" where
  "click_listener_2 path at_target l w e =
     (case l of
        SlideClick \<Rightarrow> (state_of (slideClick_2 path w), e)
      | OverlayClick \<Rightarrow> ((if at_target then close w else w), stopPropagation e)
      | CloseBtnClick \<Rightarrow> (close w, stopPropagation e)
      | InfoBtnClick btn \<Rightarrow> (state_of (infoBtnClick btn w), stopPropagation e))"

text \<open>The listeners met along the path, target first; only the first node is the target.\<close>

fun visits_2 :: "click_listener node list \<Rightarrow> bool \<Rightarrow> click_listener node list
    \<Rightarrow> (unified \<Rightarrow> flags \<Rightarrow> unified \<times> flags) list list" where
  "visits_2 path at_target [] = []"
| "visits_2 path at_target (n # ns) =
     map (click_listener_2 path at_target) (listeners n) # visits_2 path False ns"

definition click_2 :: "click_listener node list \<Rightarrow> unified \<Rightarrow> unified" where
  "click_2 path w = fst (propagate (visits_2 path True path) w fresh)"

text \<open>
  A key press reaches \<open>document\<close>, where two listeners wait in the order of their
  registration: the presenter is constructed first, the manager second.
\<close>

definition keydown_2 :: "string \<Rightarrow> unified \<Rightarrow> unified" where
  "keydown_2 key w =
     fst (propagate [[hosted (handleKeydown_2 key), escape_keydown key]] w fresh)"

text \<open>
  The handler of \<open>DOMContentLoaded\<close>: the presenter, then the manager with its overlay
  closed and empty, then both are stored in \<open>window\<close>.
\<close>

definition InfoDialogManager ::
  "(string \<Rightarrow> dialog_source option) \<Rightarrow> mathjax \<Rightarrow> presenter \<Rightarrow> unified" where
  "InfoDialogManager els mj s =
     presenter.extend s
       (unified.fields False [] [] False els mj [])"

definition DOMContentLoaded_2 ::
  "(string option \<Rightarrow> int option) \<Rightarrow> page \<Rightarrow> (string \<Rightarrow> dialog_source option) \<Rightarrow> mathjax \<Rightarrow> unified" where
  "DOMContentLoaded_2 parseInt p els mj =
     (InfoDialogManager els mj (SlidePresenter parseInt p))\<lparr>infoDialogs_set := True\<rparr>"

datatype event_2 = Keydown string | Click "click_listener node list" | TypesetSettled settlement

fun step_2 :: "event_2 \<Rightarrow> unified \<Rightarrow> unified" where
  "step_2 (Keydown key) w = keydown_2 key w"
| "step_2 (Click path) w = click_2 path w"
| "step_2 (TypesetSettled r) w = typeset_settled r w"

section \<open>LectureNotesModal and DetailButtons (\<open>assets/slides.js\<close>)\<close>

text \<open>
  The page of the older file. Elements are numbered; \<open>has_open\<close> says which of them carry
  the class \<open>open\<close>. \<open>notes_overlay\<close> and \<open>notes_btn\<close> are the two fields of
  \<open>LectureNotesModal\<close> (the first \<open>.notes-overlay\<close> and the first \<open>.lecture-notes-btn\<close>, or
  \<open>null\<close>), \<open>activeOverlay\<close> is the field of \<open>DetailButtons\<close>, and \<open>by_id\<close> is
  \<open>document.getElementById\<close>.
\<close>

record split = presenter +
  has_open :: "nat \<Rightarrow> bool"
  notes_overlay :: "nat option"
  notes_btn :: "nat option"
  activeOverlay :: "nat option"
  by_id :: "string \<Rightarrow> nat option"

definition notes_isOpen :: "split \<Rightarrow> bool" where
  "notes_isOpen w = (case notes_overlay w of None \<Rightarrow> False | Some ov \<Rightarrow> has_open w ov)"

definition notes_open :: "split \<Rightarrow> split" where
  "notes_open w =
     (case notes_overlay w of None \<Rightarrow> w | Some ov \<Rightarrow> w\<lparr>has_open := (has_open w)(ov := True)\<rparr>)"

definition notes_close :: "split \<Rightarrow> split" where
  "notes_close w =
     (case notes_overlay w of None \<Rightarrow> w | Some ov \<Rightarrow> w\<lparr>has_open := (has_open w)(ov := False)\<rparr>)"

definition detail_open :: "nat \<Rightarrow> split \<Rightarrow> split" where
  "detail_open ov w = (w\<lparr>activeOverlay := Some ov\<rparr>)\<lparr>has_open := (has_open w)(ov := True)\<rparr>"

definition detail_close :: "split \<Rightarrow> split" where
  "detail_close w =
     (case activeOverlay w of
        None \<Rightarrow> w
      | Some ov \<Rightarrow> (w\<lparr>has_open := (has_open w)(ov := False)\<rparr>)\<lparr>activeOverlay := None\<rparr>)"

text \<open>
  \<open>LectureNotesModal\<close> registers its listeners only when it has found both its overlay
  and its button.
\<close>

definition notes_wired :: "split \<Rightarrow> bool" where
  "notes_wired w = (notes_overlay w \<noteq> None \<and> notes_btn w \<noteq> None)"

definition notes_escape :: "string \<Rightarrow> split \<Rightarrow> flags \<Rightarrow> split \<times> flags" where
  "notes_escape key w e =
     (if key = ''Escape'' \<and> notes_isOpen w
      then (notes_close w, stopImmediatePropagation (preventDefault e))
      else (w, e))"

definition detail_escape :: "string \<Rightarrow> split \<Rightarrow> flags \<Rightarrow> split \<times> flags" where
  "detail_escape key w e =
     (if key = ''Escape'' \<and> activeOverlay w \<noteq> None
      then (detail_close w, stopImmediatePropagation (preventDefault e))
      else (w, e))"

text \<open>
  A key press: the two capturing listeners on \<open>document\<close> first, in the order of their
  registration, then the presenter's listener, which is not capturing.
\<close>

definition keydown_s :: "string \<Rightarrow> split \<Rightarrow> split" where
  "keydown_s key w =
     fst (propagate
            [(if notes_wired w then [notes_escape key] else []) @ [detail_escape key],
             [hosted (handleKeydown key)]] w fresh)"

text \<open>
  The click listeners of the older file: the slide's, the three of \<open>LectureNotesModal\<close>
  (button, overlay, close button) and the three of \<open>DetailButtons\<close> (a \<open>.detail-btn\<close> with
  its \<open>data-detail\<close>, each \<open>.notes-overlay\<close>, its close button).
\<close>

datatype split_listener =
  SlideClick_s | NotesBtnClick | NotesOverlayClick | NotesCloseClick
  | DetailBtnClick string | DetailOverlayClick | DetailCloseClick

definition click_listener_s ::
  "split_listener node list \<Rightarrow> bool \<Rightarrow> split_listener \<Rightarrow> split \<Rightarrow> flags \<Rightarrow> split \<times> flags" where
  "click_listener_s path at_target l w e =
     (case l of
        SlideClick_s \<Rightarrow> (state_of (slideClick path w), e)
      | NotesBtnClick \<Rightarrow> (notes_open w, e)
      | NotesOverlayClick \<Rightarrow> ((if at_target then notes_close w else w), stopPropagation e)
      | NotesCloseClick \<Rightarrow> (notes_close w, e)
      | DetailBtnClick ident \<Rightarrow>
          ((case getElementById (by_id w) (Some ident) of
              None \<Rightarrow> w
            | Some ov \<Rightarrow> detail_open ov w), e)
      | DetailOverlayClick \<Rightarrow> ((if at_target then detail_close w else w), stopPropagation e)
      | DetailCloseClick \<Rightarrow> (detail_close w, e))"

fun visits_s :: "split_listener node list \<Rightarrow> bool \<Rightarrow> split_listener node list
    \<Rightarrow> (split \<Rightarrow> flags \<Rightarrow> split \<times> flags) list list" where
  "visits_s path at_target [] = []"
| "visits_s path at_target (n # ns) =
     map (click_listener_s path at_target) (listeners n) # visits_s path False ns"

definition click_s :: "split_listener node list \<Rightarrow> split \<Rightarrow> split" where
  "click_s path w = fst (propagate (visits_s path True path) w fresh)"

text \<open>
  The handler of \<open>DOMContentLoaded\<close> of the older file: the presenter, then the two
  controllers, nothing open.
\<close>

definition DOMContentLoaded_s ::
  "(string option \<Rightarrow> int option) \<Rightarrow> page \<Rightarrow> nat option \<Rightarrow> nat option \<Rightarrow> (string \<Rightarrow> nat option)
    \<Rightarrow> (nat \<Rightarrow> bool) \<Rightarrow> split" where
  "DOMContentLoaded_s parseInt p ov btn ids cls =
     presenter.extend (SlidePresenter parseInt p) (split.fields cls ov btn None ids)"

datatype event_s = Keydown_s string | Click_s "split_listener node list"

fun step_s :: "event_s \<Rightarrow> split \<Rightarrow> split" where
  "step_s (Keydown_s key) w = keydown_s key w"
| "step_s (Click_s path) w = click_s path w"

section \<open>Sequences of calls\<close>

datatype call = Next | Prev

definition call :: "call \<Rightarrow> 'a presenter_scheme \<Rightarrow> 'a presenter_scheme result" where
  "call c s = (case c of Next \<Rightarrow> next s | Prev \<Rightarrow> prev s)"

fun calls :: "call list \<Rightarrow> 'a presenter_scheme \<Rightarrow> 'a presenter_scheme" where
  "calls [] s = s"
| "calls (c # cs) s = calls cs (state_of (call c s))"

text \<open>The fragment index is within \<open>[-1, fragments.length - 1]\<close>.\<close>

definition in_range :: "'a presenter_scheme \<Rightarrow> bool" where
  "in_range s =
     (- 1 \<le> currentFragmentIndex s \<and> currentFragmentIndex s \<le> int (length (fragments s)) - 1)"

text \<open>
  Two states have the same position when fragment index, fragments and navigation
  history agree.
\<close>

definition same_position :: "'a presenter_scheme \<Rightarrow> 'b presenter_scheme \<Rightarrow> bool" where
  "same_position s s' =
     (currentFragmentIndex s' = currentFragmentIndex s \<and> fragments s' = fragments s \<and>
      location s' = location s)"

section \<open>The same inputs on both files\<close>

text \<open>
  To compare the two files, five inputs are given to a page of each: a click on the
  button that opens the dialog, a click on the close button, a click on the overlay
  outside its content, a key press, and a click on a paragraph of the slide. In
  \<open>did-slides-2\<close> the trigger is an \<open>.info-btn\<close> button inside the slide and the overlay is
  the child of \<open>body\<close> that the manager creates; in the older file the trigger is the
  \<open>.lecture-notes-btn\<close> button and the overlay is the first \<open>.notes-overlay\<close>, here inside
  the slide, which carries the listeners of both controllers.
\<close>

definition el :: "string \<Rightarrow> 'l list \<Rightarrow> 'l node" where
  "el tag ls = \<lparr>tagName = tag, home_btn = False, listeners = ls\<rparr>"

datatype input = Trigger | CloseButton | Outside | Key string | Surface

definition trigger_btn :: info_btn where
  "trigger_btn = \<lparr>data_dialog = Some ''notes'', textContent = ''Notes''\<rparr>"

fun input_2 :: "input \<Rightarrow> event_2" where
  "input_2 Trigger =
     Click [el ''BUTTON'' [InfoBtnClick trigger_btn], el ''DIV'' [SlideClick], el ''DIV'' [],
            el ''BODY'' [], el ''HTML'' []]"
| "input_2 CloseButton =
     Click [el ''BUTTON'' [CloseBtnClick], el ''DIV'' [], el ''DIV'' [OverlayClick],
            el ''BODY'' [], el ''HTML'' []]"
| "input_2 Outside = Click [el ''DIV'' [OverlayClick], el ''BODY'' [], el ''HTML'' []]"
| "input_2 (Key k) = Keydown k"
| "input_2 Surface =
     Click [el ''P'' [], el ''DIV'' [SlideClick], el ''DIV'' [], el ''BODY'' [], el ''HTML'' []]"

fun input_s :: "input \<Rightarrow> event_s" where
  "input_s Trigger =
     Click_s [el ''BUTTON'' [NotesBtnClick], el ''DIV'' [SlideClick_s], el ''DIV'' [],
              el ''BODY'' [], el ''HTML'' []]"
| "input_s CloseButton =
     Click_s [el ''BUTTON'' [NotesCloseClick, DetailCloseClick], el ''DIV'' [],
              el ''DIV'' [NotesOverlayClick, DetailOverlayClick], el ''DIV'' [SlideClick_s],
              el ''DIV'' [], el ''BODY'' [], el ''HTML'' []]"
| "input_s Outside =
     Click_s [el ''DIV'' [NotesOverlayClick, DetailOverlayClick], el ''DIV'' [SlideClick_s],
              el ''DIV'' [], el ''BODY'' [], el ''HTML'' []]"
| "input_s (Key k) = Keydown_s k"
| "input_s Surface =
     Click_s [el ''P'' [], el ''DIV'' [SlideClick_s], el ''DIV'' [], el ''BODY'' [], el ''HTML'' []]"

fun run_2 :: "input list \<Rightarrow> unified \<Rightarrow> unified" where
  "run_2 [] u = u"
| "run_2 (i # ins) u = run_2 ins (step_2 (input_2 i) u)"

fun run_s :: "input list \<Rightarrow> split \<Rightarrow> split" where
  "run_s [] v = v"
| "run_s (i # ins) v = run_s ins (step_s (input_s i) v)"




section \<open>Example pages\<close>

text \<open>
  A deck page as its markup gives it: a slide container with \<open>data-total-slides\<close> and
  \<open>data-current-slide\<close>, no custom targets, a \<open>#slide-number\<close> element, and fragments.
\<close>

definition deck :: "string \<Rightarrow> string \<Rightarrow> bool list \<Rightarrow> page" where
  "deck tot cur fs =
     \<lparr>page_fragments = fs,
      page_container = Some \<lparr>data_totalSlides = Some tot, data_currentSlide = Some cur,
                              nextSlide = None, prevSlide = None\<rparr>,
      page_slideNumber = Some []\<rparr>"

definition linked_deck :: "string \<Rightarrow> string \<Rightarrow> bool list \<Rightarrow> string \<Rightarrow> string \<Rightarrow> page" where
  "linked_deck tot cur fs nxt prv =
     \<lparr>page_fragments = fs,
      page_container = Some \<lparr>data_totalSlides = Some tot, data_currentSlide = Some cur,
                              nextSlide = Some nxt, prevSlide = Some prv\<rparr>,
      page_slideNumber = Some []\<rparr>"

definition bare_page :: page where
  "bare_page = \<lparr>page_fragments = [], page_container = None, page_slideNumber = None\<rparr>"

definition unparsable_deck :: page where
  "unparsable_deck =
     \<lparr>page_fragments = [],
      page_container = Some \<lparr>data_totalSlides = Some ''twelve'', data_currentSlide = None,
                              nextSlide = None, prevSlide = None\<rparr>,
      page_slideNumber = None\<rparr>"

text \<open>
  A page of each file on the same deck page with one fragment: in \<open>did-slides-2\<close> an element
  with id \<open>notes\<close> holds the dialog's content and MathJax is loaded; in the older file the
  notes overlay is element \<open>0\<close> and the notes button element \<open>1\<close>, nothing is open.
\<close>

definition glossary :: "string \<Rightarrow> dialog_source option" where
  "glossary k =
     (if k = ''notes''
      then Some \<lparr>data_title = Some ''Lecture notes'', innerHTML = ''<p>Parallel trends</p>''\<rparr>
      else None)"

definition lecture_2 :: unified where
  "lecture_2 = DOMContentLoaded_2 parseInt_ascii (deck ''10'' ''4'' [False]) glossary MathJaxEngine"

definition lecture_s :: split where
  "lecture_s =
     DOMContentLoaded_s parseInt_ascii (deck ''10'' ''4'' [False]) (Some 0) (Some 1)
       (\<lambda>k. None) (\<lambda>n. False)"

text \<open>An \<open>.info-btn\<close> whose \<open>data-dialog\<close> names no element of the page.\<close>

definition dangling_btn :: info_btn where
  "dangling_btn = \<lparr>data_dialog = Some ''appendix'', textContent = ''More''\<rparr>"

section \<open>goToSlide\<close>

lemma digits_small: "n < 10 \<Longrightarrow> digits n = [digit n]"
  by (simp add: digits.simps)

lemma digits_two: "10 \<le> n \<Longrightarrow> n < 100 \<Longrightarrow> digits n = [digit (n div 10), digit (n mod 10)]"
  by (subst digits.simps) (simp add: digits_small)

lemma length_digits_pos: "0 < length (digits n)"
  by (subst digits.simps) simp

lemma length_digits_large: "10 \<le> n \<Longrightarrow> 2 \<le> length (digits n)"
  using length_digits_pos [of "n div 10"] by (subst digits.simps) (simp add: Suc_le_eq)

lemma digit_0: "digit 0 = CHR ''0''"
  by (simp add: digit_def)

lemma pad2_two_digits:
  assumes "0 \<le> n" "n \<le> 99"
  shows "padStart 2 ''0'' (String n) = [digit (nat n div 10), digit (nat n mod 10)]"
proof (cases "n < 10")
  case True
  with assms have "String n = [digit (nat n)]"
    by (simp add: String_def digits_small)
  with True assms show ?thesis
    by (simp add: padStart_def digit_0)
next
  case False
  with assms have "String n = [digit (nat n div 10), digit (nat n mod 10)]"
    by (simp add: String_def digits_two)
  then show ?thesis
    by (simp add: padStart_def)
qed

lemma pad2_length: "2 \<le> length (padStart 2 ''0'' s)"
  by (simp add: padStart_def)

lemma pad2_large: "100 \<le> n \<Longrightarrow> padStart 2 ''0'' (String n) = String n"
  using length_digits_large [of "nat n"] by (simp add: padStart_def String_def)


lemma goToSlide_in_range:
  "1 \<le> n \<Longrightarrow> n \<le> totalSlides s \<Longrightarrow> goToSlide n s = s\<lparr>location := location s @ [slide_file n]\<rparr>"
  by (simp add: goToSlide_def navigate_def)

lemma goToSlide_out_of_range: "\<not> (1 \<le> n \<and> n \<le> totalSlides s) \<Longrightarrow> goToSlide n s = s"
  by (auto simp: goToSlide_def)

text \<open>
  C4, as amended. \<open>goToSlide n\<close> navigates if and only if \<open>1 \<le> n \<le> totalSlides\<close>. When it
  navigates, it assigns to \<open>location.href\<close> the name \<open>slide-\<close>, then the decimal numeral of
  \<open>n\<close> padded with \<open>0\<close> on the left to at least two characters, then \<open>.html\<close>, and changes
  nothing else; the numeral has exactly two digits (tens, units) when \<open>n \<le> 99\<close> and is
  the unpadded numeral of \<open>n\<close>, three digits or more, from \<open>100\<close> on. Out of range the
  state is returned as it was. No step of \<open>goToSlide\<close> can throw.
\<close>

theorem goToSlide_navigates_iff:
  "(location (goToSlide n s) \<noteq> location s \<longleftrightarrow> 1 \<le> n \<and> n \<le> totalSlides s) \<and>
   (1 \<le> n \<and> n \<le> totalSlides s \<longrightarrow>
      goToSlide n s = s\<lparr>location := location s @ [''slide-'' @ padStart 2 ''0'' (String n) @ ''.html'']\<rparr> \<and>
      2 \<le> length (padStart 2 ''0'' (String n)) \<and>
      (n \<le> 99 \<longrightarrow> padStart 2 ''0'' (String n) = [digit (nat n div 10), digit (nat n mod 10)]) \<and>
      (100 \<le> n \<longrightarrow> padStart 2 ''0'' (String n) = String n \<and> 3 \<le> length (String n))) \<and>
   (\<not> (1 \<le> n \<and> n \<le> totalSlides s) \<longrightarrow> goToSlide n s = s)"
proof -
  have iff: "location (goToSlide n s) \<noteq> location s \<longleftrightarrow> 1 \<le> n \<and> n \<le> totalSlides s"
    by (simp add: goToSlide_def navigate_def)
  have three: "3 \<le> length (String n)" if "100 \<le> n"
  proof -
    from that have "10 \<le> nat n div 10" by simp
    then have "2 \<le> length (digits (nat n div 10))" by (rule length_digits_large)
    moreover from that have "\<not> nat n < 10" by linarith
    then have "digits (nat n) = digits (nat n div 10) @ [digit (nat n mod 10)]"
      using digits.simps [of "nat n"] by presburger
    ultimately show ?thesis using that by (simp add: String_def)
  qed
  show ?thesis
    using iff three pad2_two_digits [of n] pad2_large [of n] pad2_length [of "String n"]
    by (simp add: goToSlide_in_range goToSlide_out_of_range slide_file_def)
qed

theorem goToSlide_navigates_iff_witness:
  "location (goToSlide 3 (SlidePresenter parseInt_ascii (deck ''5'' ''1'' []))) = [''slide-03.html''] \<and>
   goToSlide 0 (SlidePresenter parseInt_ascii (deck ''5'' ''1'' [])) = SlidePresenter parseInt_ascii (deck ''5'' ''1'' []) \<and>
   goToSlide 6 (SlidePresenter parseInt_ascii (deck ''5'' ''1'' [])) = SlidePresenter parseInt_ascii (deck ''5'' ''1'' [])"
proof -
  define S where "S = SlidePresenter parseInt_ascii (deck ''5'' ''1'' [])"
  have t: "totalSlides S = 5" and l: "location S = []"
    unfolding S_def by code_simp+
  from goToSlide_navigates_iff [of 3 S] t
  have "goToSlide 3 S = S\<lparr>location := location S @ [''slide-'' @ padStart 2 ''0'' (String 3) @ ''.html'']\<rparr>"
    and "padStart 2 ''0'' (String 3) = [digit (nat 3 div 10), digit (nat 3 mod 10)]"
    by simp_all
  then have three: "location (goToSlide 3 S) = [''slide-03.html'']"
    by (simp add: l digit_def)
  from goToSlide_navigates_iff [of 0 S] have zero: "goToSlide 0 S = S"
    by simp
  from goToSlide_navigates_iff [of 6 S] t have six: "goToSlide 6 S = S"
    by simp
  from three zero six show ?thesis
    unfolding S_def by simp
qed

text \<open>
  C4 as stated fails on a deck of a hundred slides: \<open>goToSlide(100)\<close> is in range and
  navigates to \<open>slide-100.html\<close>, whose number has three digits, not two.
\<close>

theorem goToSlide_two_digits_counterexample:
  "totalSlides (SlidePresenter parseInt_ascii (deck ''100'' ''1'' [])) = 100 \<and>
   location (goToSlide 100 (SlidePresenter parseInt_ascii (deck ''100'' ''1'' []))) = [''slide-100.html''] \<and>
   length (padStart 2 ''0'' (String 100)) = 3"
  by code_simp

section \<open>next and prev\<close>

lemma updateNav_fields [simp]:
  "currentFragmentIndex (updateNav s) = currentFragmentIndex s"
  "fragments (updateNav s) = fragments s"
  "location (updateNav s) = location s"
  "totalSlides (updateNav s) = totalSlides s"
  "currentSlide (updateNav s) = currentSlide s"
  "container (updateNav s) = container s"
  "fullscreen (updateNav s) = fullscreen s"
  by (simp_all add: updateNav_def split: option.split)

lemma navigate_fields [simp]:
  "currentFragmentIndex (navigate u s) = currentFragmentIndex s"
  "fragments (navigate u s) = fragments s"
  "location (navigate u s) = location s @ [u]"
  "totalSlides (navigate u s) = totalSlides s"
  "currentSlide (navigate u s) = currentSlide s"
  "container (navigate u s) = container s"
  "fullscreen (navigate u s) = fullscreen s"
  by (simp_all add: navigate_def)

lemma goToSlide_fields [simp]:
  "currentFragmentIndex (goToSlide n s) = currentFragmentIndex s"
  "fragments (goToSlide n s) = fragments s"
  "totalSlides (goToSlide n s) = totalSlides s"
  "currentSlide (goToSlide n s) = currentSlide s"
  "container (goToSlide n s) = container s"
  "fullscreen (goToSlide n s) = fullscreen s"
  by (simp_all add: goToSlide_def)

lemma goToSlide_location:
  "location (goToSlide n s) = (if 1 \<le> n \<and> n \<le> totalSlides s then location s @ [slide_file n] else location s)"
  by (simp add: goToSlide_def)

lemma next_reveal:
  assumes "- 1 \<le> currentFragmentIndex s" "currentFragmentIndex s < int (length (fragments s)) - 1"
  shows "next s = Inr (updateNav (s\<lparr>currentFragmentIndex := currentFragmentIndex s + 1,
            fragments := (fragments s)[nat (currentFragmentIndex s + 1) := True]\<rparr>))"
  using assms by (simp add: next_def set_visible_def Let_def)

lemma next_custom:
  assumes "\<not> currentFragmentIndex s < int (length (fragments s)) - 1" "custom nextSlide s = Some url"
  shows "next s = Inr (navigate url s)"
  using assms by (simp add: next_def)

lemma next_numeric:
  assumes "\<not> currentFragmentIndex s < int (length (fragments s)) - 1" "custom nextSlide s = None"
  shows "next s = Inr (updateNav (if currentSlide s < totalSlides s then goToSlide (currentSlide s + 1) s else s))"
  using assms by (simp add: next_def)

text \<open>
  C1, as amended. In every state with fragment index at least \<open>-1\<close> (every state reached
  from construction is one), \<open>next\<close> returns normally and follows this order. If the fragment index is below \<open>fragments.length - 1\<close>, the index goes up by
  one, the fragment at the new index is marked visible, and nothing is navigated.
  Otherwise, if the container has a non-empty custom next target, that URL is navigated
  to. Otherwise, if the current slide number is at least \<open>0\<close> and below the total, the file
  of the next slide is navigated to. Otherwise nothing is navigated. In the last three
  cases the fragment index and the fragments stay as they are.
\<close>

theorem next_priority:
  assumes "- 1 \<le> currentFragmentIndex s"
  shows
  "(currentFragmentIndex s < int (length (fragments s)) - 1 \<longrightarrow>
      (\<exists>s'. next s = Inr s' \<and>
            currentFragmentIndex s' = currentFragmentIndex s + 1 \<and>
            fragments s' = (fragments s)[nat (currentFragmentIndex s + 1) := True] \<and>
            location s' = location s)) \<and>
   (\<not> currentFragmentIndex s < int (length (fragments s)) - 1 \<longrightarrow>
      (\<forall>url. custom nextSlide s = Some url \<longrightarrow>
         (\<exists>s'. next s = Inr s' \<and> location s' = location s @ [url] \<and>
               currentFragmentIndex s' = currentFragmentIndex s \<and> fragments s' = fragments s)) \<and>
      (custom nextSlide s = None \<longrightarrow>
         (0 \<le> currentSlide s \<and> currentSlide s < totalSlides s \<longrightarrow>
            (\<exists>s'. next s = Inr s' \<and> location s' = location s @ [slide_file (currentSlide s + 1)] \<and>
                  currentFragmentIndex s' = currentFragmentIndex s \<and> fragments s' = fragments s)) \<and>
         (\<not> (0 \<le> currentSlide s \<and> currentSlide s < totalSlides s) \<longrightarrow>
            (\<exists>s'. next s = Inr s' \<and> location s' = location s \<and>
                  currentFragmentIndex s' = currentFragmentIndex s \<and> fragments s' = fragments s))))"
proof (cases "currentFragmentIndex s < int (length (fragments s)) - 1")
  case True
  with assms show ?thesis by (simp add: next_reveal)
next
  case False
  show ?thesis
  proof (cases "custom nextSlide s")
    case None
    with False show ?thesis by (simp add: next_numeric goToSlide_location)
  next
    case (Some url)
    with False show ?thesis by (simp add: next_custom)
  qed
qed

theorem next_priority_witness:
  "currentFragmentIndex (state_of (next (SlidePresenter parseInt_ascii (deck ''10'' ''4'' [False, False])))) = 0 \<and>
   fragments (state_of (next (SlidePresenter parseInt_ascii (deck ''10'' ''4'' [False, False])))) = [True, False] \<and>
   location (state_of (next (SlidePresenter parseInt_ascii (deck ''10'' ''4'' [False, False])))) = [] \<and>
   location (state_of (next (SlidePresenter parseInt_ascii (linked_deck ''10'' ''4'' [] ''appendix.html'' ''intro.html'')))) = [''appendix.html''] \<and>
   location (state_of (next (SlidePresenter parseInt_ascii (deck ''10'' ''4'' [])))) = [''slide-05.html''] \<and>
   location (state_of (next (SlidePresenter parseInt_ascii (deck ''10'' ''10'' [])))) = []"
proof -
  define A where "A = SlidePresenter parseInt_ascii (deck ''10'' ''4'' [False, False])"
  define B where "B = SlidePresenter parseInt_ascii (linked_deck ''10'' ''4'' [] ''appendix.html'' ''intro.html'')"
  define C where "C = SlidePresenter parseInt_ascii (deck ''10'' ''4'' [])"
  define D where "D = SlidePresenter parseInt_ascii (deck ''10'' ''10'' [])"
  have a: "currentFragmentIndex A = - 1" "fragments A = [False, False]" "location A = []"
    unfolding A_def by code_simp+
  have b: "currentFragmentIndex B = - 1" "fragments B = []" "custom nextSlide B = Some ''appendix.html''"
    "location B = []"
    unfolding B_def by code_simp+
  have c: "currentFragmentIndex C = - 1" "fragments C = []" "custom nextSlide C = None"
    "location C = []" "currentSlide C = 4" "totalSlides C = 10" "slide_file 5 = ''slide-05.html''"
    unfolding C_def by code_simp+
  have d: "currentFragmentIndex D = - 1" "fragments D = []" "custom nextSlide D = None"
    "location D = []" "currentSlide D = 10" "totalSlides D = 10"
    unfolding D_def by code_simp+
  from next_priority [of A] a
  have "currentFragmentIndex (state_of (next A)) = 0 \<and> fragments (state_of (next A)) = [True, False] \<and>
      location (state_of (next A)) = []"
    by (auto simp: state_of_def)
  moreover from next_priority [of B] b have "location (state_of (next B)) = [''appendix.html'']"
    by (auto simp: state_of_def)
  moreover from next_priority [of C] c have "location (state_of (next C)) = [''slide-05.html'']"
    by (auto simp: state_of_def)
  moreover from next_priority [of D] d have "location (state_of (next D)) = []"
    by (auto simp: state_of_def)
  ultimately show ?thesis
    unfolding A_def B_def C_def D_def by simp
qed

text \<open>
  C1 as stated fails on a page whose container says \<open>data-current-slide="-3"\<close> and
  \<open>data-total-slides="5"\<close>: no fragment, no custom target, \<open>-3 < 5\<close>, and yet \<open>next\<close> navigates
  nowhere, because \<open>goToSlide(-2)\<close> is out of range.
\<close>

theorem next_negative_slide_counterexample:
  "currentFragmentIndex (SlidePresenter parseInt_ascii (deck ''5'' ''-3'' [])) = - 1 \<and>
   fragments (SlidePresenter parseInt_ascii (deck ''5'' ''-3'' [])) = [] \<and>
   custom nextSlide (SlidePresenter parseInt_ascii (deck ''5'' ''-3'' [])) = None \<and>
   currentSlide (SlidePresenter parseInt_ascii (deck ''5'' ''-3'' [])) = - 3 \<and>
   totalSlides (SlidePresenter parseInt_ascii (deck ''5'' ''-3'' [])) = 5 \<and>
   next (SlidePresenter parseInt_ascii (deck ''5'' ''-3'' [])) = Inr (SlidePresenter parseInt_ascii (deck ''5'' ''-3'' [])) \<and>
   location (state_of (next (SlidePresenter parseInt_ascii (deck ''5'' ''-3'' [])))) = []"
  by code_simp

lemma prev_hide:
  assumes "0 \<le> currentFragmentIndex s" "currentFragmentIndex s < int (length (fragments s))"
  shows "prev s = Inr (updateNav (s\<lparr>fragments := (fragments s)[nat (currentFragmentIndex s) := False],
            currentFragmentIndex := currentFragmentIndex s - 1\<rparr>))"
  using assms by (simp add: prev_def set_visible_def)

lemma prev_custom:
  assumes "\<not> 0 \<le> currentFragmentIndex s" "custom prevSlide s = Some url"
  shows "prev s = Inr (navigate url s)"
  using assms by (simp add: prev_def)

lemma prev_numeric:
  assumes "\<not> 0 \<le> currentFragmentIndex s" "custom prevSlide s = None"
  shows "prev s = Inr (updateNav (if currentSlide s > 1 then goToSlide (currentSlide s - 1) s else s))"
  using assms by (simp add: prev_def)

text \<open>
  C2, as amended. In every state with fragment index below \<open>fragments.length\<close> (every state
  reached from construction), \<open>prev\<close> returns normally and follows this order. If the
  fragment index is at least \<open>0\<close>, the fragment at that index loses its visible mark, the
  index goes down by one, and nothing is navigated. Otherwise, if the container has a
  non-empty custom previous target, that URL is navigated to. Otherwise, if the current
  slide number is above \<open>1\<close> and at most the total plus one, the file of the previous slide
  is navigated to. Otherwise nothing is navigated. In the last three cases the fragment
  index and the fragments stay as they are.
\<close>

theorem prev_priority:
  assumes "currentFragmentIndex s < int (length (fragments s))"
  shows
  "(0 \<le> currentFragmentIndex s \<longrightarrow>
      (\<exists>s'. prev s = Inr s' \<and>
            currentFragmentIndex s' = currentFragmentIndex s - 1 \<and>
            fragments s' = (fragments s)[nat (currentFragmentIndex s) := False] \<and>
            location s' = location s)) \<and>
   (\<not> 0 \<le> currentFragmentIndex s \<longrightarrow>
      (\<forall>url. custom prevSlide s = Some url \<longrightarrow>
         (\<exists>s'. prev s = Inr s' \<and> location s' = location s @ [url] \<and>
               currentFragmentIndex s' = currentFragmentIndex s \<and> fragments s' = fragments s)) \<and>
      (custom prevSlide s = None \<longrightarrow>
         (1 < currentSlide s \<and> currentSlide s \<le> totalSlides s + 1 \<longrightarrow>
            (\<exists>s'. prev s = Inr s' \<and> location s' = location s @ [slide_file (currentSlide s - 1)] \<and>
                  currentFragmentIndex s' = currentFragmentIndex s \<and> fragments s' = fragments s)) \<and>
         (\<not> (1 < currentSlide s \<and> currentSlide s \<le> totalSlides s + 1) \<longrightarrow>
            (\<exists>s'. prev s = Inr s' \<and> location s' = location s \<and>
                  currentFragmentIndex s' = currentFragmentIndex s \<and> fragments s' = fragments s))))"
proof (cases "0 \<le> currentFragmentIndex s")
  case True
  with assms show ?thesis by (simp add: prev_hide)
next
  case False
  show ?thesis
  proof (cases "custom prevSlide s")
    case None
    with False show ?thesis by (simp add: prev_numeric goToSlide_location)
  next
    case (Some url)
    with False show ?thesis by (simp add: prev_custom)
  qed
qed

theorem prev_priority_witness:
  "currentFragmentIndex (state_of (prev (state_of (next (SlidePresenter parseInt_ascii (deck ''10'' ''4'' [False, False])))))) = - 1 \<and>
   fragments (state_of (prev (state_of (next (SlidePresenter parseInt_ascii (deck ''10'' ''4'' [False, False])))))) = [False, False] \<and>
   location (state_of (prev (SlidePresenter parseInt_ascii (linked_deck ''10'' ''4'' [] ''appendix.html'' ''intro.html'')))) = [''intro.html''] \<and>
   location (state_of (prev (SlidePresenter parseInt_ascii (deck ''10'' ''4'' [])))) = [''slide-03.html''] \<and>
   location (state_of (prev (SlidePresenter parseInt_ascii (deck ''10'' ''1'' [])))) = []"
proof -
  define A where "A = state_of (next (SlidePresenter parseInt_ascii (deck ''10'' ''4'' [False, False])))"
  define B where "B = SlidePresenter parseInt_ascii (linked_deck ''10'' ''4'' [] ''appendix.html'' ''intro.html'')"
  define C where "C = SlidePresenter parseInt_ascii (deck ''10'' ''4'' [])"
  define D where "D = SlidePresenter parseInt_ascii (deck ''10'' ''1'' [])"
  have a: "currentFragmentIndex A = 0" "fragments A = [True, False]"
    unfolding A_def by code_simp+
  have b: "currentFragmentIndex B = - 1" "fragments B = []" "custom prevSlide B = Some ''intro.html''"
    "location B = []"
    unfolding B_def by code_simp+
  have c: "currentFragmentIndex C = - 1" "fragments C = []" "custom prevSlide C = None"
    "location C = []" "currentSlide C = 4" "totalSlides C = 10" "slide_file 3 = ''slide-03.html''"
    unfolding C_def by code_simp+
  have d: "currentFragmentIndex D = - 1" "fragments D = []" "custom prevSlide D = None"
    "location D = []" "currentSlide D = 1" "totalSlides D = 10"
    unfolding D_def by code_simp+
  from prev_priority [of A] a
  have "currentFragmentIndex (state_of (prev A)) = - 1 \<and> fragments (state_of (prev A)) = [False, False]"
    by (auto simp: state_of_def)
  moreover from prev_priority [of B] b have "location (state_of (prev B)) = [''intro.html'']"
    by (auto simp: state_of_def)
  moreover from prev_priority [of C] c have "location (state_of (prev C)) = [''slide-03.html'']"
    by (auto simp: state_of_def)
  moreover from prev_priority [of D] d have "location (state_of (prev D)) = []"
    by (auto simp: state_of_def)
  ultimately show ?thesis
    unfolding A_def B_def C_def D_def by simp
qed

text \<open>
  C2 as stated fails on a page whose container says \<open>data-current-slide="7"\<close> and
  \<open>data-total-slides="5"\<close>: no fragment revealed, no custom target, \<open>7 > 1\<close>, and yet \<open>prev\<close>
  navigates nowhere, because \<open>goToSlide(6)\<close> is out of range.
\<close>

theorem prev_beyond_total_counterexample:
  "currentFragmentIndex (SlidePresenter parseInt_ascii (deck ''5'' ''7'' [])) = - 1 \<and>
   custom prevSlide (SlidePresenter parseInt_ascii (deck ''5'' ''7'' [])) = None \<and>
   currentSlide (SlidePresenter parseInt_ascii (deck ''5'' ''7'' [])) = 7 \<and>
   totalSlides (SlidePresenter parseInt_ascii (deck ''5'' ''7'' [])) = 5 \<and>
   prev (SlidePresenter parseInt_ascii (deck ''5'' ''7'' [])) = Inr (SlidePresenter parseInt_ascii (deck ''5'' ''7'' [])) \<and>
   location (state_of (prev (SlidePresenter parseInt_ascii (deck ''5'' ''7'' [])))) = []"
  by code_simp

section \<open>Construction\<close>

lemma init_fields:
  "currentFragmentIndex (init parseInt p s) = currentFragmentIndex s"
  "fragments (init parseInt p s) = page_fragments p"
  "totalSlides (init parseInt p s) =
     (case container s of None \<Rightarrow> totalSlides s | Some c \<Rightarrow> or_one (parseInt (data_totalSlides c)))"
  "currentSlide (init parseInt p s) =
     (case container s of None \<Rightarrow> currentSlide s | Some c \<Rightarrow> or_one (parseInt (data_currentSlide c)))"
  "location (init parseInt p s) = location s"
  by (simp_all add: init_def Let_def split: option.split)

text \<open>
  C6, as amended. After construction, on a page with a slide container, \<open>totalSlides\<close> is
  the number \<open>parseInt\<close> reads from \<open>data-total-slides\<close>, or \<open>1\<close> when that is \<open>NaN\<close> or \<open>0\<close>, and
  \<open>currentSlide\<close> likewise from \<open>data-current-slide\<close>; on a page without slide container,
  \<open>totalSlides\<close> is \<open>0\<close> and \<open>currentSlide\<close> is \<open>1\<close>. This holds whatever \<open>parseInt\<close> computes.
\<close>

theorem init_slide_numbers:
  "(\<forall>c. page_container p = Some c \<longrightarrow>
      totalSlides (SlidePresenter parseInt p) =
        (case parseInt (data_totalSlides c) of None \<Rightarrow> 1 | Some n \<Rightarrow> if n = 0 then 1 else n) \<and>
      currentSlide (SlidePresenter parseInt p) =
        (case parseInt (data_currentSlide c) of None \<Rightarrow> 1 | Some n \<Rightarrow> if n = 0 then 1 else n)) \<and>
   (page_container p = None \<longrightarrow>
      totalSlides (SlidePresenter parseInt p) = 0 \<and> currentSlide (SlidePresenter parseInt p) = 1)"
  by (simp add: SlidePresenter_def init_fields or_one_def)

theorem init_slide_numbers_witness:
  "totalSlides (SlidePresenter parseInt_ascii (deck ''12'' ''7'' [])) = 12 \<and>
   currentSlide (SlidePresenter parseInt_ascii (deck ''12'' ''7'' [])) = 7 \<and>
   totalSlides (SlidePresenter parseInt_ascii unparsable_deck) = 1 \<and>
   currentSlide (SlidePresenter parseInt_ascii unparsable_deck) = 1 \<and>
   totalSlides (SlidePresenter parseInt_ascii bare_page) = 0 \<and>
   currentSlide (SlidePresenter parseInt_ascii bare_page) = 1"
proof -
  have a: "page_container (deck ''12'' ''7'' []) =
      Some \<lparr>data_totalSlides = Some ''12'', data_currentSlide = Some ''7'', nextSlide = None, prevSlide = None\<rparr>"
    by (simp add: deck_def)
  have b: "page_container unparsable_deck =
      Some \<lparr>data_totalSlides = Some ''twelve'', data_currentSlide = None, nextSlide = None, prevSlide = None\<rparr>"
    by (simp add: unparsable_deck_def)
  have c: "page_container bare_page = None"
    by (simp add: bare_page_def)
  have p: "parseInt_ascii (Some ''12'') = Some 12" "parseInt_ascii (Some ''7'') = Some 7"
    "parseInt_ascii (Some ''twelve'') = None" "parseInt_ascii None = None"
    by code_simp+
  from init_slide_numbers [of "deck ''12'' ''7'' []" parseInt_ascii]
    init_slide_numbers [of unparsable_deck parseInt_ascii]
    init_slide_numbers [of bare_page parseInt_ascii]
  show ?thesis
    by (simp add: a b c p)
qed

text \<open>
  C6 as stated fails on a page without slide container: \<open>totalSlides\<close> keeps the \<open>0\<close> of the
  constructor, it is not \<open>1\<close>.
\<close>

theorem init_without_container_counterexample:
  "page_container bare_page = None \<and>
   totalSlides (SlidePresenter parseInt_ascii bare_page) = 0"
  by code_simp

section \<open>The fragment index\<close>

lemma next_in_range:
  assumes "in_range s"
  shows "\<not> threw (next s) \<and> in_range (state_of (next s)) \<and>
         length (fragments (state_of (next s))) = length (fragments s) \<and>
         \<bar>currentFragmentIndex (state_of (next s)) - currentFragmentIndex s\<bar> \<le> 1 \<and>
         (location (state_of (next s)) \<noteq> location s \<longrightarrow>
            currentFragmentIndex s = int (length (fragments s)) - 1)"
proof (cases "currentFragmentIndex s < int (length (fragments s)) - 1")
  case True
  with assms show ?thesis
    by (simp add: next_reveal in_range_def state_of_def threw_def)
next
  case False
  with assms have eq: "currentFragmentIndex s = int (length (fragments s)) - 1"
    by (simp add: in_range_def)
  show ?thesis
  proof (cases "custom nextSlide s")
    case None
    with False assms eq show ?thesis
      by (simp add: next_numeric in_range_def state_of_def threw_def)
  next
    case (Some url)
    with False assms eq show ?thesis
      by (simp add: next_custom in_range_def state_of_def threw_def)
  qed
qed

lemma prev_in_range:
  assumes "in_range s"
  shows "\<not> threw (prev s) \<and> in_range (state_of (prev s)) \<and>
         length (fragments (state_of (prev s))) = length (fragments s) \<and>
         \<bar>currentFragmentIndex (state_of (prev s)) - currentFragmentIndex s\<bar> \<le> 1 \<and>
         (location (state_of (prev s)) \<noteq> location s \<longrightarrow> currentFragmentIndex s = - 1)"
proof (cases "0 \<le> currentFragmentIndex s")
  case True
  with assms show ?thesis
    by (simp add: prev_hide in_range_def state_of_def threw_def)
next
  case False
  with assms have eq: "currentFragmentIndex s = - 1"
    by (simp add: in_range_def)
  show ?thesis
  proof (cases "custom prevSlide s")
    case None
    with False assms eq show ?thesis
      by (simp add: prev_numeric in_range_def state_of_def threw_def)
  next
    case (Some url)
    with False assms eq show ?thesis
      by (simp add: prev_custom in_range_def state_of_def threw_def)
  qed
qed

lemma call_in_range:
  assumes "in_range s"
  shows "\<not> threw (call c s) \<and> in_range (state_of (call c s)) \<and>
         \<bar>currentFragmentIndex (state_of (call c s)) - currentFragmentIndex s\<bar> \<le> 1"
  using next_in_range [OF assms] prev_in_range [OF assms]
  by (cases c) (simp_all add: call_def)

lemma calls_in_range: "in_range s \<Longrightarrow> in_range (calls cs s)"
  by (induction cs arbitrary: s) (simp_all add: call_in_range)

lemma calls_append: "calls (xs @ ys) s = calls ys (calls xs s)"
  by (induction xs arbitrary: s) simp_all

lemma calls_Suc_Next: "calls (replicate (Suc k) Next) s = state_of (next (calls (replicate k Next) s))"
proof -
  have "replicate (Suc k) Next = replicate k Next @ [Next]"
    by (simp add: replicate_append_same)
  then show ?thesis
    by (simp add: calls_append call_def del: replicate_Suc)
qed

lemma reveal_run:
  assumes "- 1 \<le> currentFragmentIndex s"
    and "int k \<le> int (length (fragments s)) - 1 - currentFragmentIndex s"
  shows "currentFragmentIndex (calls (replicate k Next) s) = currentFragmentIndex s + int k \<and>
         location (calls (replicate k Next) s) = location s \<and>
         length (fragments (calls (replicate k Next) s)) = length (fragments s) \<and>
         (\<forall>j < length (fragments s).
            fragments (calls (replicate k Next) s) ! j =
              (fragments s ! j \<or> (currentFragmentIndex s < int j \<and> int j \<le> currentFragmentIndex s + int k)))"
  using assms(2)
proof (induction k)
  case 0
  show ?case by auto
next
  case (Suc k)
  define t where "t = calls (replicate k Next) s"
  from Suc have ih:
    "currentFragmentIndex t = currentFragmentIndex s + int k"
    "location t = location s"
    "length (fragments t) = length (fragments s)"
    "\<forall>j < length (fragments s). fragments t ! j =
        (fragments s ! j \<or> (currentFragmentIndex s < int j \<and> int j \<le> currentFragmentIndex s + int k))"
    unfolding t_def by simp_all
  from Suc.prems ih assms(1)
  have lo: "- 1 \<le> currentFragmentIndex t"
    and hi: "currentFragmentIndex t < int (length (fragments t)) - 1"
    by simp_all
  define u where "u = calls (replicate (Suc k) Next) s"
  have step: "u =
      updateNav (t\<lparr>currentFragmentIndex := currentFragmentIndex t + 1,
                   fragments := (fragments t)[nat (currentFragmentIndex t + 1) := True]\<rparr>)"
    unfolding u_def calls_Suc_Next t_def [symmetric] by (simp add: next_reveal [OF lo hi] state_of_def)
  have u: "currentFragmentIndex u = currentFragmentIndex s + int (Suc k)"
    "location u = location s"
    "length (fragments u) = length (fragments s)"
    "fragments u = (fragments t)[nat (currentFragmentIndex s + int k + 1) := True]"
    using ih by (simp_all add: step)
  have frag: "fragments u ! j =
      (fragments s ! j \<or> (currentFragmentIndex s < int j \<and> int j \<le> currentFragmentIndex s + int (Suc k)))"
    if "j < length (fragments s)" for j
  proof (cases "j = nat (currentFragmentIndex s + int k + 1)")
    case True
    with that ih(3) assms(1) show ?thesis
      by (simp add: u(4))
  next
    case False
    from that ih(3) False have "fragments u ! j = fragments t ! j"
      by (simp add: u(4))
    also from that ih(4) have "\<dots> = (fragments s ! j \<or>
        (currentFragmentIndex s < int j \<and> int j \<le> currentFragmentIndex s + int k))"
      by simp
    also from False assms(1) have "\<dots> = (fragments s ! j \<or>
        (currentFragmentIndex s < int j \<and> int j \<le> currentFragmentIndex s + int (Suc k)))"
      by auto
    finally show ?thesis .
  qed
  from u frag show ?case
    unfolding u_def by blast
qed

lemma SlidePresenter_in_range: "in_range (SlidePresenter parseInt p)"
  by (simp add: in_range_def SlidePresenter_def init_fields)

text \<open>
  C5. The fragment index is within \<open>[-1, fragments.length - 1]\<close> after construction, and
  from any state where it is, after every sequence \<open>cs\<close> of calls of \<open>next\<close> and \<open>prev\<close>: it
  still is; a further call does not throw and moves the index by at most one; a further
  \<open>next\<close> only reveals the next fragment unless the index equals \<open>fragments.length - 1\<close>,
  and navigates only if it does; a further \<open>prev\<close> only hides the last revealed fragment
  unless the index equals \<open>-1\<close>, and navigates only if it does. With \<open>F\<close> fragments and index \<open>i\<close>, the first \<open>k\<close> calls of \<open>next\<close>, for
  every \<open>k \<le> F - 1 - i\<close>, reveal exactly the fragments \<open>i + 1, \<dots>, i + k\<close> and navigate
  nowhere; so of \<open>F - i\<close> calls only the last one reaches the navigation, and after them
  the index is \<open>F - 1\<close> and every fragment after \<open>i\<close> is visible.
\<close>

theorem fragment_index_invariant:
  assumes "in_range s"
  shows
  "in_range (SlidePresenter parseInt p) \<and>
   in_range (calls cs s) \<and>
   (\<forall>c. \<not> threw (call c (calls cs s)) \<and>
        \<bar>currentFragmentIndex (state_of (call c (calls cs s))) - currentFragmentIndex (calls cs s)\<bar> \<le> 1) \<and>
   (currentFragmentIndex (calls cs s) \<noteq> int (length (fragments (calls cs s))) - 1 \<longrightarrow>
      next (calls cs s) =
        Inr (updateNav ((calls cs s)
          \<lparr>currentFragmentIndex := currentFragmentIndex (calls cs s) + 1,
           fragments := (fragments (calls cs s))[nat (currentFragmentIndex (calls cs s) + 1) := True]\<rparr>))) \<and>
   (location (state_of (next (calls cs s))) \<noteq> location (calls cs s) \<longrightarrow>
      currentFragmentIndex (calls cs s) = int (length (fragments (calls cs s))) - 1) \<and>
   (currentFragmentIndex (calls cs s) \<noteq> - 1 \<longrightarrow>
      prev (calls cs s) =
        Inr (updateNav ((calls cs s)
          \<lparr>fragments := (fragments (calls cs s))[nat (currentFragmentIndex (calls cs s)) := False],
           currentFragmentIndex := currentFragmentIndex (calls cs s) - 1\<rparr>))) \<and>
   (location (state_of (prev (calls cs s))) \<noteq> location (calls cs s) \<longrightarrow>
      currentFragmentIndex (calls cs s) = - 1) \<and>
   (\<forall>k. int k \<le> int (length (fragments s)) - 1 - currentFragmentIndex s \<longrightarrow>
      currentFragmentIndex (calls (replicate k Next) s) = currentFragmentIndex s + int k \<and>
      location (calls (replicate k Next) s) = location s \<and>
      length (fragments (calls (replicate k Next) s)) = length (fragments s) \<and>
      (\<forall>j < length (fragments s).
         fragments (calls (replicate k Next) s) ! j =
           (fragments s ! j \<or> (currentFragmentIndex s < int j \<and> int j \<le> currentFragmentIndex s + int k)))) \<and>
   currentFragmentIndex (calls (replicate (nat (int (length (fragments s)) - currentFragmentIndex s)) Next) s) =
     int (length (fragments s)) - 1 \<and>
   (\<forall>j < length (fragments s). currentFragmentIndex s < int j \<longrightarrow>
      fragments (calls (replicate (nat (int (length (fragments s)) - currentFragmentIndex s)) Next) s) ! j)"
proof -
  let ?F = "int (length (fragments s))" and ?i = "currentFragmentIndex s"
  from assms have lo: "- 1 \<le> ?i" and hi: "?i \<le> ?F - 1"
    by (simp_all add: in_range_def)
  have inv: "in_range (calls cs s)"
    using assms by (rule calls_in_range)
  have one: "\<not> threw (call c (calls cs s)) \<and>
      \<bar>currentFragmentIndex (state_of (call c (calls cs s))) - currentFragmentIndex (calls cs s)\<bar> \<le> 1" for c
    using call_in_range [OF inv, of c] by simp
  have run: "currentFragmentIndex (calls (replicate k Next) s) = ?i + int k \<and>
      location (calls (replicate k Next) s) = location s \<and>
      length (fragments (calls (replicate k Next) s)) = length (fragments s) \<and>
      (\<forall>j < length (fragments s).
         fragments (calls (replicate k Next) s) ! j =
           (fragments s ! j \<or> (?i < int j \<and> int j \<le> ?i + int k)))"
    if "int k \<le> ?F - 1 - ?i" for k
    using lo that by (rule reveal_run)
  define m where "m = nat (?F - 1 - ?i)"
  define t where "t = calls (replicate m Next) s"
  from hi have m: "int m = ?F - 1 - ?i"
    by (simp add: m_def)
  from run [of m] m have t:
    "currentFragmentIndex t = ?F - 1"
    "length (fragments t) = length (fragments s)"
    "\<forall>j < length (fragments s). fragments t ! j = (fragments s ! j \<or> (?i < int j \<and> int j \<le> ?F - 1))"
    unfolding t_def by simp_all
  from hi have n: "nat (?F - ?i) = Suc m"
    by (simp add: m_def)
  have last: "calls (replicate (nat (?F - ?i)) Next) s = state_of (next t)"
    unfolding n calls_Suc_Next t_def ..
  have "in_range t"
    unfolding t_def using assms calls_in_range by blast
  moreover from t have "\<not> currentFragmentIndex t < int (length (fragments t)) - 1"
    by simp
  ultimately have fin: "currentFragmentIndex (state_of (next t)) = currentFragmentIndex t"
    "fragments (state_of (next t)) = fragments t"
    by (cases "custom nextSlide t"; simp add: next_custom next_numeric state_of_def)+
  from t fin have all: "\<forall>j < length (fragments s). ?i < int j \<longrightarrow> fragments (state_of (next t)) ! j"
    by auto
  have c1: "in_range (SlidePresenter parseInt p)"
    by (rule SlidePresenter_in_range)
  have c3: "\<forall>c. \<not> threw (call c (calls cs s)) \<and>
      \<bar>currentFragmentIndex (state_of (call c (calls cs s))) - currentFragmentIndex (calls cs s)\<bar> \<le> 1"
    using one by blast
  have c4a: "currentFragmentIndex (calls cs s) \<noteq> int (length (fragments (calls cs s))) - 1 \<longrightarrow>
      next (calls cs s) =
        Inr (updateNav ((calls cs s)
          \<lparr>currentFragmentIndex := currentFragmentIndex (calls cs s) + 1,
           fragments := (fragments (calls cs s))[nat (currentFragmentIndex (calls cs s) + 1) := True]\<rparr>))"
    using inv next_reveal [of "calls cs s"] by (simp add: in_range_def)
  have c5a: "currentFragmentIndex (calls cs s) \<noteq> - 1 \<longrightarrow>
      prev (calls cs s) =
        Inr (updateNav ((calls cs s)
          \<lparr>fragments := (fragments (calls cs s))[nat (currentFragmentIndex (calls cs s)) := False],
           currentFragmentIndex := currentFragmentIndex (calls cs s) - 1\<rparr>))"
    using inv prev_hide [of "calls cs s"] by (simp add: in_range_def)
  have c4: "location (state_of (next (calls cs s))) \<noteq> location (calls cs s) \<longrightarrow>
      currentFragmentIndex (calls cs s) = int (length (fragments (calls cs s))) - 1"
    using next_in_range [OF inv] by blast
  have c5: "location (state_of (prev (calls cs s))) \<noteq> location (calls cs s) \<longrightarrow>
      currentFragmentIndex (calls cs s) = - 1"
    using prev_in_range [OF inv] by blast
  have c6: "\<forall>k. int k \<le> ?F - 1 - ?i \<longrightarrow>
      currentFragmentIndex (calls (replicate k Next) s) = ?i + int k \<and>
      location (calls (replicate k Next) s) = location s \<and>
      length (fragments (calls (replicate k Next) s)) = length (fragments s) \<and>
      (\<forall>j < length (fragments s).
         fragments (calls (replicate k Next) s) ! j =
           (fragments s ! j \<or> (?i < int j \<and> int j \<le> ?i + int k)))"
    using run by blast
  have c7: "currentFragmentIndex (calls (replicate (nat (?F - ?i)) Next) s) = ?F - 1"
    unfolding last using t(1) fin(1) by simp
  have c8: "\<forall>j < length (fragments s). ?i < int j \<longrightarrow>
      fragments (calls (replicate (nat (?F - ?i)) Next) s) ! j"
    unfolding last using all .
  from c1 inv c3 c4a c4 c5a c5 c6 c7 c8 show ?thesis
    by (intro conjI)
qed

theorem fragment_index_invariant_witness:
  "in_range (SlidePresenter parseInt_ascii (deck ''10'' ''4'' [False, False, False])) \<and>
   in_range (calls [Next, Next, Prev, Next] (SlidePresenter parseInt_ascii (deck ''10'' ''4'' [False, False, False]))) \<and>
   currentFragmentIndex (calls (replicate 3 Next) (SlidePresenter parseInt_ascii (deck ''10'' ''4'' [False, False, False]))) = 2 \<and>
   location (calls (replicate 3 Next) (SlidePresenter parseInt_ascii (deck ''10'' ''4'' [False, False, False]))) = [] \<and>
   currentFragmentIndex (calls (replicate 4 Next) (SlidePresenter parseInt_ascii (deck ''10'' ''4'' [False, False, False]))) = 2"
proof -
  define S where "S = SlidePresenter parseInt_ascii (deck ''10'' ''4'' [False, False, False])"
  have r: "in_range S"
    unfolding S_def by (rule SlidePresenter_in_range)
  have f: "currentFragmentIndex S = - 1" "fragments S = [False, False, False]" "location S = []"
    unfolding S_def by code_simp+
  have n: "nat (int (length (fragments S)) - currentFragmentIndex S) = 4"
    by (simp add: f)
  from fragment_index_invariant [OF r, of parseInt_ascii "deck ''10'' ''4'' [False, False, False]" "[Next, Next, Prev, Next]"]
  have a: "in_range (calls [Next, Next, Prev, Next] S)"
    by blast
  from fragment_index_invariant [OF r, of parseInt_ascii "deck ''10'' ''4'' [False, False, False]" "[]"]
  have b: "\<forall>k. int k \<le> int (length (fragments S)) - 1 - currentFragmentIndex S \<longrightarrow>
      currentFragmentIndex (calls (replicate k Next) S) = currentFragmentIndex S + int k \<and>
      location (calls (replicate k Next) S) = location S"
    and c: "currentFragmentIndex (calls (replicate (nat (int (length (fragments S)) - currentFragmentIndex S)) Next) S) =
      int (length (fragments S)) - 1"
    by blast+
  from b [rule_format, of 3] f
  have b3: "currentFragmentIndex (calls (replicate 3 Next) S) = 2 \<and> location (calls (replicate 3 Next) S) = []"
    by simp
  from c have c4: "currentFragmentIndex (calls (replicate 4 Next) S) = 2"
    unfolding n by (simp add: f)
  from r a b3 c4 show ?thesis
    unfolding S_def by simp
qed

section \<open>Dialogs\<close>

lemma propagate_stopped: "propagationStopped e \<Longrightarrow> propagate vs w e = (w, e)"
  by (cases vs) simp_all

lemma fresh_flags [simp]:
  "\<not> propagationStopped fresh" "\<not> immediateStopped fresh" "\<not> defaultPrevented fresh"
  by (simp_all add: fresh_def)

lemma stop_flags [simp]:
  "propagationStopped (stopPropagation e)"
  "immediateStopped (stopPropagation e) = immediateStopped e"
  "propagationStopped (preventDefault e) = propagationStopped e"
  "immediateStopped (preventDefault e) = immediateStopped e"
  "propagationStopped (stopImmediatePropagation e)"
  "immediateStopped (stopImmediatePropagation e)"
  by (simp_all add: stopPropagation_def preventDefault_def stopImmediatePropagation_def)

lemma visits_2_skip:
  assumes "\<forall>n \<in> set inner. listeners n = []"
  shows "propagate (visits_2 path at (inner @ rest)) w e =
         (if propagationStopped e then (w, e) else propagate (visits_2 path (at \<and> inner = []) rest) w e)"
  using assms
proof (induction inner arbitrary: at)
  case Nil
  show ?case by (simp add: propagate_stopped)
next
  case (Cons n inner)
  then show ?case by (simp add: propagate_stopped)
qed

lemma close_fields [simp]:
  "\<not> isOpen (close w)" "\<not> overlay_open (close w)" "\<not> dialog_open (close w)"
  "location (close w) = location w"
  "currentFragmentIndex (close w) = currentFragmentIndex w"
  "fragments (close w) = fragments w"
  "dialog_title (close w) = dialog_title w"
  "dialog_body (close w) = dialog_body w"
  by (simp_all add: close_def isOpen_def dialog_open_def)

lemma open_state:
  "state_of (open t b w) =
     (case mathJax w of
        MathJaxEngine \<Rightarrow> w\<lparr>dialog_title := t, dialog_body := b, overlay_open := True,
                              typesetting := typesetting w @ [b]\<rparr>
      | _ \<Rightarrow> w\<lparr>dialog_title := t, dialog_body := b, overlay_open := True\<rparr>)"
  by (simp add: open_def state_of_def Let_def split: mathjax.split)

lemma open_threw: "threw (open t b w) \<longleftrightarrow> mathJax w = MathJaxConfig"
  by (simp add: open_def threw_def Let_def split: mathjax.split)

lemma typeset_settled_fields [simp]:
  "overlay_open (typeset_settled r w) = overlay_open w"
  "dialog_title (typeset_settled r w) = dialog_title w"
  "dialog_body (typeset_settled r w) = dialog_body w"
  "location (typeset_settled r w) = location w"
  "currentFragmentIndex (typeset_settled r w) = currentFragmentIndex w"
  "fragments (typeset_settled r w) = fragments w"
  by (simp_all add: typeset_settled_def on_rejected_def split: list.split settlement.split)

text \<open>
  C8. \<open>open(title, body)\<close> puts the title and the body into the overlay and marks it open:
  after the call \<open>isOpen()\<close> is true. With the MathJax engine present the call returns
  normally and hands the body to \<open>typesetPromise\<close>; with no MathJax it returns normally
  and typesets nothing. However the promise settles, the dialog stays open with the same
  title and body, and a rejection leaves exactly the state that a fulfilment leaves.
\<close>

theorem open_sets_and_opens:
  "dialog_title (state_of (open t b w)) = t \<and>
   dialog_body (state_of (open t b w)) = b \<and>
   isOpen (state_of (open t b w)) \<and>
   (mathJax w = MathJaxEngine \<longrightarrow>
      \<not> threw (open t b w) \<and> typesetting (state_of (open t b w)) = typesetting w @ [b]) \<and>
   (mathJax w = NoMathJax \<longrightarrow>
      \<not> threw (open t b w) \<and> typesetting (state_of (open t b w)) = typesetting w) \<and>
   (\<forall>r. isOpen (typeset_settled r (state_of (open t b w))) \<and>
        dialog_title (typeset_settled r (state_of (open t b w))) = t \<and>
        dialog_body (typeset_settled r (state_of (open t b w))) = b) \<and>
   typeset_settled Rejected (state_of (open t b w)) = typeset_settled Fulfilled (state_of (open t b w))"
proof -
  have fields: "dialog_title (state_of (open t b w)) = t" "dialog_body (state_of (open t b w)) = b"
    "overlay_open (state_of (open t b w))"
    by (simp_all add: open_state split: mathjax.split)
  have queue: "typesetting (state_of (open t b w)) =
      (if mathJax w = MathJaxEngine then typesetting w @ [b] else typesetting w)"
    by (simp add: open_state split: mathjax.split)
  have same: "typeset_settled Rejected u = typeset_settled Fulfilled u" for u
    by (simp add: typeset_settled_def on_rejected_def split: list.split)
  from fields queue same show ?thesis
    by (simp add: isOpen_def open_threw)
qed

theorem open_sets_and_opens_witness:
  "mathJax lecture_2 = MathJaxEngine \<and>
   \<not> threw (open ''Lecture notes'' ''<p>Parallel trends</p>'' lecture_2) \<and>
   isOpen (typeset_settled Rejected (state_of (open ''Lecture notes'' ''<p>Parallel trends</p>'' lecture_2))) \<and>
   dialog_title (state_of (open ''Lecture notes'' ''<p>Parallel trends</p>'' lecture_2)) = ''Lecture notes''"
proof -
  have m: "mathJax lecture_2 = MathJaxEngine"
    by code_simp
  from open_sets_and_opens [of "''Lecture notes''" "''<p>Parallel trends</p>''" lecture_2] m
  show ?thesis
    by simp
qed

text \<open>
  C10. When the \<open>data-dialog\<close> of an \<open>.info-btn\<close> finds no element, its click listener
  returns the state as it was and only stops the propagation; so a click on the button,
  or on an element inside it that has no listener, leaves the whole state unchanged:
  the dialog is not opened, title and body stay, \<open>isOpen()\<close> keeps its value, and no
  listener of an ancestor (the slide's among them) runs.
\<close>

theorem info_btn_without_target:
  assumes "getElementById (elements w) (data_dialog btn) = None"
  shows "click_listener_2 path at (InfoBtnClick btn) w e = (w, stopPropagation e) \<and>
         (\<forall>inner tag home ancestors. (\<forall>n \<in> set inner. listeners n = []) \<longrightarrow>
            click_2 (inner @ \<lparr>tagName = tag, home_btn = home, listeners = [InfoBtnClick btn]\<rparr> # ancestors) w = w)"
proof -
  have l: "click_listener_2 p a (InfoBtnClick btn) w e' = (w, stopPropagation e')" for p a e'
    using assms by (simp add: click_listener_2_def infoBtnClick_def state_of_def)
  have "click_2 (inner @ \<lparr>tagName = tag, home_btn = home, listeners = [InfoBtnClick btn]\<rparr> # ancestors) w = w"
    if "\<forall>n \<in> set inner. listeners n = []" for inner tag home ancestors
    using that by (simp add: click_2_def visits_2_skip l propagate_stopped)
  with l show ?thesis by blast
qed

theorem info_btn_without_target_witness:
  "getElementById (elements lecture_2) (data_dialog dangling_btn) = None \<and>
   click_2 [el ''BUTTON'' [InfoBtnClick dangling_btn], el ''DIV'' [SlideClick]] lecture_2 = lecture_2"
proof -
  have g: "getElementById (elements lecture_2) (data_dialog dangling_btn) = None"
    by code_simp
  from info_btn_without_target [OF g, of "[]" False fresh]
  have "\<forall>inner tag home ancestors. (\<forall>n \<in> set inner. listeners n = []) \<longrightarrow>
      click_2 (inner @ \<lparr>tagName = tag, home_btn = home, listeners = [InfoBtnClick dangling_btn]\<rparr> # ancestors)
        lecture_2 = lecture_2"
    by blast
  from this [rule_format, of "[]" "''BUTTON''" False "[el ''DIV'' [SlideClick]]"]
  have "click_2 [el ''BUTTON'' [InfoBtnClick dangling_btn], el ''DIV'' [SlideClick]] lecture_2 = lecture_2"
    by (simp add: el_def)
  with g show ?thesis
    by simp
qed

lemma same_position_refl [simp]: "same_position s s"
  by (simp add: same_position_def)

lemma handleKeydown_flags:
  "propagationStopped (snd (handleKeydown key s e)) = propagationStopped e"
  "immediateStopped (snd (handleKeydown key s e)) = immediateStopped e"
  by (simp_all add: handleKeydown_def)

lemma unified_fields_kept [simp]:
  "overlay_open (updateNav w) = overlay_open w"
  "overlay_open (navigate u w) = overlay_open w"
  "overlay_open (goToSlide n w) = overlay_open w"
  "overlay_open (goToIndex w) = overlay_open w"
  "overlay_open (toggleFullscreen w) = overlay_open w"
  by (simp_all add: updateNav_def navigate_def goToSlide_def goToIndex_def toggleFullscreen_def
      split: option.split)

lemma next_overlay_open [simp]: "overlay_open (state_of (next w)) = overlay_open w"
  by (simp add: next_def state_of_def Let_def split: option.split)

lemma prev_overlay_open [simp]: "overlay_open (state_of (prev w)) = overlay_open w"
  by (simp add: prev_def state_of_def split: option.split)

lemma handleKeydown_overlay_open [simp]:
  "overlay_open (state_of (fst (handleKeydown key w e))) = overlay_open w"
  by (simp add: handleKeydown_def state_of_def [of "Inr x" for x])

lemma keydown_2_open:
  assumes "dialog_open w"
  shows "keydown_2 key w = (if key = ''Escape'' then close w else w)"
  using assms
  by (simp add: keydown_2_def hosted_def handleKeydown_2_def escape_keydown_def state_of_def
      dialog_open_def isOpen_def)

lemma keydown_2_closed:
  assumes "\<not> overlay_open w"
  shows "keydown_2 key w = state_of (fst (handleKeydown key w fresh))"
proof -
  obtain r e where h: "handleKeydown key w fresh = (r, e)"
    by (cases "handleKeydown key w fresh")
  from handleKeydown_flags [of key w fresh] h
  have e: "\<not> propagationStopped e" "\<not> immediateStopped e"
    by simp_all
  from handleKeydown_overlay_open [of key w fresh] h assms
  have o: "\<not> overlay_open (state_of r)"
    by simp
  from assms h e o show ?thesis
    by (simp add: keydown_2_def hosted_def handleKeydown_2_def escape_keydown_def
        dialog_open_def isOpen_def)
qed

text \<open>
  C7. In \<open>did-slides-2\<close>, pressing Escape while the dialog is open does exactly what \<open>close\<close>
  does; a click on the close button does, and a click whose target is the overlay itself
  does, whatever the ancestors of the target and their listeners are. And \<open>close\<close> leaves
  the dialog closed and navigation history, fragment index and fragments as they were:
  no navigation to the index, no advance of the slide.
\<close>

theorem closing_does_not_navigate:
  "(dialog_open w \<longrightarrow> keydown_2 ''Escape'' w = close w) \<and>
   (\<forall>tag home ancestors.
      click_2 (\<lparr>tagName = tag, home_btn = home, listeners = [CloseBtnClick]\<rparr> # ancestors) w = close w) \<and>
   (\<forall>tag home ancestors.
      click_2 (\<lparr>tagName = tag, home_btn = home, listeners = [OverlayClick]\<rparr> # ancestors) w = close w) \<and>
   \<not> isOpen (close w) \<and> location (close w) = location w \<and>
   currentFragmentIndex (close w) = currentFragmentIndex w \<and> fragments (close w) = fragments w"
  by (simp add: keydown_2_open click_2_def click_listener_2_def propagate_stopped)

theorem closing_does_not_navigate_witness:
  "dialog_open (run_2 [Trigger] lecture_2) \<and>
   \<not> isOpen (keydown_2 ''Escape'' (run_2 [Trigger] lecture_2)) \<and>
   location (keydown_2 ''Escape'' (run_2 [Trigger] lecture_2)) = []"
proof -
  have o: "dialog_open (run_2 [Trigger] lecture_2)" and l: "location (run_2 [Trigger] lecture_2) = []"
    by code_simp+
  from closing_does_not_navigate [of "run_2 [Trigger] lecture_2"] o l show ?thesis
    by simp
qed

lemma infoBtnClick_open:
  assumes "dialog_open w"
  shows "dialog_open (state_of (infoBtnClick btn w)) \<and> same_position w (state_of (infoBtnClick btn w))"
proof (cases "getElementById (elements w) (data_dialog btn)")
  case None
  with assms show ?thesis by (simp add: infoBtnClick_def state_of_def)
next
  case (Some target)
  with assms show ?thesis
    by (simp add: infoBtnClick_def open_state dialog_open_def isOpen_def same_position_def
        split: mathjax.split)
qed

lemma click_listener_2_open:
  assumes "dialog_open w" "same_position w0 w" "l = SlideClick \<or> (\<exists>btn. l = InfoBtnClick btn)"
  shows "dialog_open (fst (click_listener_2 path at l w e)) \<and>
         same_position w0 (fst (click_listener_2 path at l w e))"
  using assms infoBtnClick_open [of w]
  by (auto simp: click_listener_2_def slideClick_2_def state_of_def same_position_def)

lemma run_listeners_open:
  assumes "dialog_open w" "same_position w0 w"
    "\<forall>l \<in> set ls. l = SlideClick \<or> (\<exists>btn. l = InfoBtnClick btn)"
  shows "dialog_open (fst (run_listeners (map (click_listener_2 path at) ls) w e)) \<and>
         same_position w0 (fst (run_listeners (map (click_listener_2 path at) ls) w e))"
  using assms
proof (induction ls arbitrary: w e)
  case Nil
  then show ?case by simp
next
  case (Cons l ls)
  obtain w' e' where s: "click_listener_2 path at l w e = (w', e')"
    by (cases "click_listener_2 path at l w e")
  from click_listener_2_open [of w w0 l path at e] Cons.prems s
  have "dialog_open w'" "same_position w0 w'"
    by simp_all
  with Cons.IH [where w = w' and e = e'] Cons.prems s show ?case
    by simp
qed

lemma propagate_open:
  assumes "dialog_open w" "same_position w0 w"
    "\<forall>n \<in> set ns. \<forall>l \<in> set (listeners n). l = SlideClick \<or> (\<exists>btn. l = InfoBtnClick btn)"
  shows "dialog_open (fst (propagate (visits_2 path at ns) w e)) \<and>
         same_position w0 (fst (propagate (visits_2 path at ns) w e))"
  using assms
proof (induction ns arbitrary: w e at)
  case Nil
  then show ?case by simp
next
  case (Cons n ns)
  obtain w' e' where s: "run_listeners (map (click_listener_2 path at) (listeners n)) w e = (w', e')"
    by (cases "run_listeners (map (click_listener_2 path at) (listeners n)) w e")
  from run_listeners_open [of w w0 "listeners n" path at e] Cons.prems s
  have "dialog_open w'" "same_position w0 w'"
    by simp_all
  with Cons.IH [where w = w' and e = e' and at = False] Cons.prems s show ?case
    by simp
qed

lemma click_2_open:
  assumes "dialog_open w"
    "\<forall>n \<in> set path. \<forall>l \<in> set (listeners n). l = SlideClick \<or> (\<exists>btn. l = InfoBtnClick btn)"
  shows "dialog_open (click_2 path w) \<and> same_position w (click_2 path w)"
  unfolding click_2_def using propagate_open [of w w path path True fresh] assms by simp

lemma click_2_surface:
  assumes "\<forall>n \<in> set inner. listeners n = []" "listeners slide = [SlideClick]"
    "\<forall>n \<in> set ancestors. listeners n = []"
  shows "click_2 (inner @ slide # ancestors) w = state_of (slideClick_2 (inner @ slide # ancestors) w)"
proof -
  have "propagate (visits_2 p a ancestors) u e = (u, e)" for p a u e
    using visits_2_skip [of ancestors p a "[]" u e] assms(3) by simp
  with assms(1,2) show ?thesis
    by (simp add: click_2_def visits_2_skip click_listener_2_def)
qed

section \<open>The two files compared\<close>

lemma more_kept [simp]:
  "presenter.more (updateNav s) = presenter.more s"
  "presenter.more (navigate u s) = presenter.more s"
  "presenter.more (goToSlide n s) = presenter.more s"
  "presenter.more (goToIndex s) = presenter.more s"
  "presenter.more (toggleFullscreen s) = presenter.more s"
  by (simp_all add: updateNav_def navigate_def goToSlide_def goToIndex_def toggleFullscreen_def
      split: option.split)

lemma more_next [simp]: "presenter.more (state_of (next s)) = presenter.more s"
  by (simp add: next_def state_of_def Let_def split: option.split)

lemma more_prev [simp]: "presenter.more (state_of (prev s)) = presenter.more s"
  by (simp add: prev_def state_of_def split: option.split)

lemma more_handleKeydown [simp]:
  "presenter.more (state_of (fst (handleKeydown key s e))) = presenter.more s"
  by (simp add: handleKeydown_def state_of_def [of "Inr x" for x])







lemma run_listeners_slide_only:
  assumes "dialog_open w" "\<forall>l \<in> set ls. l = SlideClick"
  shows "run_listeners (map (click_listener_2 path at) ls) w e = (w, e)"
  using assms
  by (induction ls) (simp_all add: click_listener_2_def slideClick_2_def state_of_def)

lemma propagate_slide_only:
  assumes "dialog_open w" "\<forall>n \<in> set ns. \<forall>l \<in> set (listeners n). l = SlideClick"
  shows "propagate (visits_2 path at ns) w e = (w, e)"
  using assms
  by (induction ns arbitrary: at) (simp_all add: run_listeners_slide_only)

lemma keydown_s_escape:
  assumes "notes_wired v" "notes_isOpen v"
  shows "keydown_s ''Escape'' v = notes_close v"
  using assms by (simp add: keydown_s_def notes_escape_def propagate_stopped)

lemma keydown_s_other:
  assumes "key \<noteq> ''Escape''"
  shows "keydown_s key v = state_of (fst (handleKeydown key v fresh))"
  using assms
  by (cases "handleKeydown key v fresh")
     (simp add: keydown_s_def notes_escape_def detail_escape_def hosted_def)

lemma notes_close_position [simp]: "same_position v (notes_close v)"
  by (simp add: notes_close_def same_position_def split: option.split)

text \<open>
  C3, as amended. In \<open>did-slides-2\<close>, while the dialog is open: a key press changes neither
  fragment index, fragments, navigation history nor fullscreen, and any key but Escape
  changes nothing at all; a click that meets only the listeners of the slide and of info
  buttons leaves the position as it is, and a click that meets only the slide's listener
  changes nothing. Once the dialog is closed, a key press does what \<open>handleKeydown\<close> without
  the test of the dialog does, and a click on the slide surface does what the slide's
  listener without that test does. In the older file, with the notes overlay open,
  Escape closes the overlay and leaves the position; every other key does what
  \<open>handleKeydown\<close> does, open overlay or not.
\<close>

theorem navigation_suppressed_while_open:
  "(dialog_open w \<longrightarrow>
      (\<forall>key. same_position w (keydown_2 key w) \<and> fullscreen (keydown_2 key w) = fullscreen w \<and>
             (key \<noteq> ''Escape'' \<longrightarrow> keydown_2 key w = w)) \<and>
      (\<forall>path. (\<forall>n \<in> set path. \<forall>l \<in> set (listeners n). l = SlideClick \<or> (\<exists>btn. l = InfoBtnClick btn)) \<longrightarrow>
             same_position w (click_2 path w)) \<and>
      (\<forall>path. (\<forall>n \<in> set path. \<forall>l \<in> set (listeners n). l = SlideClick) \<longrightarrow> click_2 path w = w)) \<and>
   \<not> dialog_open (close w) \<and>
   (\<not> overlay_open w \<longrightarrow>
      (\<forall>key. keydown_2 key w = state_of (fst (handleKeydown key w fresh))) \<and>
      (\<forall>inner slide ancestors.
         (\<forall>n \<in> set inner. listeners n = []) \<and> listeners slide = [SlideClick] \<and>
         (\<forall>n \<in> set ancestors. listeners n = []) \<longrightarrow>
         click_2 (inner @ slide # ancestors) w = state_of (slideClick (inner @ slide # ancestors) w))) \<and>
   (notes_wired v \<and> notes_isOpen v \<longrightarrow>
      keydown_s ''Escape'' v = notes_close v \<and> same_position v (notes_close v)) \<and>
   (\<forall>key. key \<noteq> ''Escape'' \<longrightarrow> keydown_s key v = state_of (fst (handleKeydown key v fresh)))"
proof -
  have key_open: "same_position w (keydown_2 key w) \<and> fullscreen (keydown_2 key w) = fullscreen w \<and>
      (key \<noteq> ''Escape'' \<longrightarrow> keydown_2 key w = w)" if "dialog_open w" for key
    using that by (simp add: keydown_2_open same_position_def close_def)
  have click_open: "same_position w (click_2 path w)"
    if "dialog_open w"
      "\<forall>n \<in> set path. \<forall>l \<in> set (listeners n). l = SlideClick \<or> (\<exists>btn. l = InfoBtnClick btn)" for path
    using click_2_open [OF that] by simp
  have slide_open: "click_2 path w = w"
    if "dialog_open w" "\<forall>n \<in> set path. \<forall>l \<in> set (listeners n). l = SlideClick" for path
    using that by (simp add: click_2_def propagate_slide_only)
  have key_closed: "keydown_2 key w = state_of (fst (handleKeydown key w fresh))"
    if "\<not> overlay_open w" for key
    using that by (rule keydown_2_closed)
  have click_closed: "click_2 (inner @ slide # ancestors) w = state_of (slideClick (inner @ slide # ancestors) w)"
    if "\<not> overlay_open w" "\<forall>n \<in> set inner. listeners n = []" "listeners slide = [SlideClick]"
      "\<forall>n \<in> set ancestors. listeners n = []" for inner slide ancestors
    using click_2_surface [OF that(2,3,4), of w] that(1)
    by (simp add: slideClick_2_def slideClick_def dialog_open_def isOpen_def)
  show ?thesis
    using key_open click_open slide_open key_closed click_closed
      keydown_s_escape [of v] keydown_s_other [of _ v]
    by (intro conjI impI allI; (elim conjE)?; simp)
qed

theorem navigation_suppressed_while_open_witness:
  "dialog_open (run_2 [Trigger] lecture_2) \<and>
   keydown_2 ''ArrowRight'' (run_2 [Trigger] lecture_2) = run_2 [Trigger] lecture_2 \<and>
   click_2 [el ''P'' [], el ''DIV'' [SlideClick]] (run_2 [Trigger] lecture_2) = run_2 [Trigger] lecture_2 \<and>
   \<not> overlay_open (close (run_2 [Trigger] lecture_2)) \<and>
   fragments (keydown_2 ''ArrowRight'' (close (run_2 [Trigger] lecture_2))) = [True] \<and>
   notes_wired (run_s [Trigger] lecture_s) \<and> notes_isOpen (run_s [Trigger] lecture_s) \<and>
   \<not> notes_isOpen (keydown_s ''Escape'' (run_s [Trigger] lecture_s)) \<and>
   location (keydown_s ''Escape'' (run_s [Trigger] lecture_s)) = []"
proof -
  define w where "w = run_2 [Trigger] lecture_2"
  define v where "v = run_s [Trigger] lecture_s"
  have o: "dialog_open w"
    unfolding w_def by code_simp
  have c: "\<not> overlay_open (close w)"
    by (simp add: close_def)
  have f: "fragments (state_of (fst (handleKeydown ''ArrowRight'' (close w) fresh))) = [True]"
    unfolding w_def by code_simp
  have n: "notes_wired v" "notes_isOpen v" "\<not> notes_isOpen (notes_close v)" "location (notes_close v) = []"
    unfolding v_def by code_simp+
  have p: "\<forall>n \<in> set [el ''P'' [], el ''DIV'' [SlideClick]]. \<forall>l \<in> set (listeners n). l = SlideClick"
    by (simp add: el_def)
  from navigation_suppressed_while_open [of w v] o
  have "keydown_2 ''ArrowRight'' w = w"
    and "\<forall>path. (\<forall>n \<in> set path. \<forall>l \<in> set (listeners n). l = SlideClick) \<longrightarrow> click_2 path w = w"
    by simp_all
  with p have a: "keydown_2 ''ArrowRight'' w = w" "click_2 [el ''P'' [], el ''DIV'' [SlideClick]] w = w"
    by blast+
  from navigation_suppressed_while_open [of "close w" v] c
  have "keydown_2 ''ArrowRight'' (close w) = state_of (fst (handleKeydown ''ArrowRight'' (close w) fresh))"
    by blast
  with f have b: "fragments (keydown_2 ''ArrowRight'' (close w)) = [True]"
    by simp
  from navigation_suppressed_while_open [of w v] n(1,2)
  have "keydown_s ''Escape'' v = notes_close v"
    by blast
  with n have d: "\<not> notes_isOpen (keydown_s ''Escape'' v)" "location (keydown_s ''Escape'' v) = []"
    by simp_all
  from o a c b n(1,2) d show ?thesis
    unfolding w_def v_def by simp
qed

text \<open>
  C3 as stated fails for the older file: with the notes overlay open, ArrowRight still
  reveals the next fragment and End still navigates to the last slide.
\<close>

theorem split_keys_while_open_counterexample:
  "notes_isOpen (click_s [el ''BUTTON'' [NotesBtnClick], el ''DIV'' [SlideClick_s]] lecture_s) \<and>
   currentFragmentIndex (click_s [el ''BUTTON'' [NotesBtnClick], el ''DIV'' [SlideClick_s]] lecture_s) = - 1 \<and>
   fragments (click_s [el ''BUTTON'' [NotesBtnClick], el ''DIV'' [SlideClick_s]] lecture_s) = [False] \<and>
   currentFragmentIndex (keydown_s ''ArrowRight'' (click_s [el ''BUTTON'' [NotesBtnClick], el ''DIV'' [SlideClick_s]] lecture_s)) = 0 \<and>
   fragments (keydown_s ''ArrowRight'' (click_s [el ''BUTTON'' [NotesBtnClick], el ''DIV'' [SlideClick_s]] lecture_s)) = [True] \<and>
   location (keydown_s ''End'' (click_s [el ''BUTTON'' [NotesBtnClick], el ''DIV'' [SlideClick_s]] lecture_s)) = [''slide-10.html'']"
  by code_simp


lemma truncate_dialog [simp]:
  "presenter.truncate (close u) = presenter.truncate u"
  "presenter.truncate (state_of (open t b u)) = presenter.truncate u"
  "presenter.truncate (notes_open v) = presenter.truncate v"
  "presenter.truncate (notes_close v) = presenter.truncate v"
  by (simp_all add: close_def open_state notes_open_def notes_close_def presenter.truncate_def
      split: mathjax.split option.split)












end
